theory Spec2Isabelle
  imports Complex_Main
begin

section \<open>Radiometric link budget: the SNR notebook\<close>

text \<open>
  The program is the notebook \<^verbatim>\<open>SNR_VIS.ipynb\<close>: a parameter cell followed by unit
  conversion, a cell of constants and geometric quantities, a signal cell, a noise cell and the
  SNR cell. Each cell is embedded as one function on records of the variables it assigns.

  Numbers are modelled as exact reals. What is part of the model:
  \<^item> a true division of Python floats raises \<^verbatim>\<open>ZeroDivisionError\<close> when the divisor is
    \<^verbatim>\<open>0.0\<close>, which is the case when its exact value is too small to be anything else as a
    double;
  \<^item> the power operator \<^verbatim>\<open>**\<close> on Python floats, and the conversion of a Python integer
    to a float, raise \<^verbatim>\<open>OverflowError\<close> when the result is beyond the largest double;
  \<^item> \<^verbatim>\<open>np.sqrt\<close> of a negative number does not raise but yields \<^verbatim>\<open>nan\<close>, which then
    propagates; a NumPy scalar that is not a finite number is \<open>None\<close>.

  What is not part of it: the rounding of each result to the nearest double, and the silent
  overflow of a product, quotient or sum to \<^verbatim>\<open>inf\<close>. The properties below that depend on
  magnitudes are therefore stated for parameters in a range where no intermediate result
  leaves the range of normal doubles, and with a margin that rounding does not consume.
  Subsection \<open>Double precision\<close> gives the electron count of the notebook with every result
  rounded.
\<close>

subsection \<open>Parameters and unit conversion\<close>

record parameters =
  R :: real
  lambda_c :: real
  D_ap :: real
  D_obs :: real
  n_x :: int
  n_y :: int
  D :: real
  f :: real
  BW :: real
  L_typ :: real
  eta :: real
  t :: real
  n_evmax :: real
  DR :: real
  L_abs :: real
  L_scat :: real
  L_opt :: real
  L_crop :: real

text \<open>The values written in the parameter cell.\<close>

definition default_parameters :: parameters where
  "default_parameters =
     \<lparr> R = 400, lambda_c = 625, D_ap = 114 / 10, D_obs = 0, n_x = 2200, n_y = 3208,
       D = 6, f = 16, BW = 300, L_typ = 2045 / 100, eta = 35 / 100, t = 13 / 100000,
       n_evmax = 12000, DR = 55,
       L_abs = 11 / 100, L_scat = 58 / 1000, L_opt = 2 / 10, L_crop = 6 / 10 \<rparr>"

text \<open>The eight in-place multiplications \<^verbatim>\<open>R *= 1e3\<close>, ..., \<^verbatim>\<open>L_typ *= 1e6\<close>.\<close>

definition unit_conversion :: "parameters \<Rightarrow> parameters" where
  "unit_conversion p =
     (let p = p\<lparr>R := R p * 10 ^ 3\<rparr>;
          p = p\<lparr>lambda_c := lambda_c p * (1 / 10 ^ 9)\<rparr>;
          p = p\<lparr>D_ap := D_ap p * (1 / 10 ^ 3)\<rparr>;
          p = p\<lparr>D_obs := D_obs p * (1 / 10 ^ 3)\<rparr>;
          p = p\<lparr>D := D p * (1 / 10 ^ 6)\<rparr>;
          p = p\<lparr>f := f p * (1 / 10 ^ 3)\<rparr>;
          p = p\<lparr>BW := BW p * (1 / 10 ^ 9)\<rparr>;
          p = p\<lparr>L_typ := L_typ p * 10 ^ 6\<rparr>
      in p)"

subsection \<open>Python and NumPy arithmetic\<close>

datatype error = ZeroDivisionError | OverflowError

text \<open>
  The first cell raising ends the run: the later assignments are not made.
\<close>

definition bind_error :: "error + 'a \<Rightarrow> ('a \<Rightarrow> error + 'b) \<Rightarrow> error + 'b" where
  "bind_error m k = (case m of Inl e \<Rightarrow> Inl e | Inr x \<Rightarrow> k x)"

text \<open>
  A real of magnitude \<open>2\<^sup>1\<^sup>0\<^sup>2\<^sup>4 - 2\<^sup>9\<^sup>7\<^sup>0\<close> or more rounds to an infinity, and one of
  magnitude \<open>2\<^sup>-\<^sup>1\<^sup>0\<^sup>7\<^sup>5\<close> or less rounds to zero.
\<close>

definition overflow_bound :: real where
  "overflow_bound = 2 ^ 1024 - 2 ^ 970"

definition underflow_bound :: real where
  "underflow_bound = 1 / 2 ^ 1075"

text \<open>True division of two Python floats.\<close>

definition py_div :: "real \<Rightarrow> real \<Rightarrow> error + real" where
  "py_div a b = (if \<bar>b\<bar> \<le> underflow_bound then Inl ZeroDivisionError else Inr (a / b))"

text \<open>\<^verbatim>\<open>x ** 2\<close> on a Python float.\<close>

definition py_sq :: "real \<Rightarrow> error + real" where
  "py_sq x = (if overflow_bound \<le> x ^ 2 then Inl OverflowError else Inr (x ^ 2))"

text \<open>\<^verbatim>\<open>10 ** y\<close> with a float exponent.\<close>

definition py_pow10 :: "real \<Rightarrow> error + real" where
  "py_pow10 y = (if overflow_bound \<le> 10 powr y then Inl OverflowError else Inr (10 powr y))"

text \<open>A Python integer meeting a float in an arithmetic operation.\<close>

definition py_float :: "int \<Rightarrow> error + real" where
  "py_float n = (if overflow_bound \<le> \<bar>of_int n\<bar> then Inl OverflowError else Inr (of_int n))"

text \<open>\<^verbatim>\<open>np.sqrt\<close> on a scalar: \<^verbatim>\<open>nan\<close> below zero.\<close>

definition np_sqrt :: "real \<Rightarrow> real option" where
  "np_sqrt x = (if x < 0 then None else Some (sqrt x))"

text \<open>Division of a float by a NumPy scalar: no exception, a non-finite value at zero.\<close>

definition np_div :: "real \<Rightarrow> real option \<Rightarrow> real option" where
  "np_div a b = (case b of None \<Rightarrow> None | Some d \<Rightarrow> if d = 0 then None else Some (a / d))"

subsection \<open>Helper functions\<close>

definition db2pow :: "real \<Rightarrow> error + real" where
  "db2pow db = py_pow10 (db / 10)"

definition db2volt :: "real \<Rightarrow> error + real" where
  "db2volt db = py_pow10 (db / 20)"

definition pow2db :: "real \<Rightarrow> real" where
  "pow2db pw = 10 * log 10 pw"

definition rad2deg :: "real \<Rightarrow> real" where
  "rad2deg x = x * (180 / pi)"

subsection \<open>Constants and geometry\<close>

text \<open>
  \<^verbatim>\<open>scipy.constants.h\<close> and \<^verbatim>\<open>scipy.constants.c\<close> are values of the SciPy library, not of
  the notebook: the Planck constant in J s and the speed of light in m/s (CODATA 2018).
\<close>

definition h :: real where
  "h = 662607015 / 10 ^ 42"

definition c :: real where
  "c = 299792458"

record geometry =
  R_e :: real
  A_ap :: real
  A_obs :: real
  A_det :: real
  iFOV_px :: real
  pix_smear :: "real option"

definition constants_cell :: "parameters \<Rightarrow> error + geometry" where
  "constants_cell p =
     (let R_e' = 6378137 / 1000 * 10 ^ 3
      in bind_error (py_sq (D_ap p)) (\<lambda>ap2.
         bind_error (py_sq (D_obs p)) (\<lambda>obs2.
         bind_error (py_sq (D p)) (\<lambda>d2.
         bind_error (py_float (n_x p)) (\<lambda>nx.
         bind_error (py_float (n_y p)) (\<lambda>ny.
         bind_error (py_div (5 / 10 * D p) (f p)) (\<lambda>q.
         bind_error (py_div (3986000005 / 10) (R p + R_e')) (\<lambda>v.
           Inr \<lparr> R_e = R_e', A_ap = pi * ap2 / 4, A_obs = pi * obs2 / 4,
                 A_det = d2 * nx * ny,
                 iFOV_px = rad2deg (2 * arctan q),
                 pix_smear = map_option (\<lambda>s. t p * s * 1000) (np_sqrt v) \<rparr>))))))))"

subsection \<open>Signal\<close>

record signal =
  P :: real
  phi_det :: real
  phi :: real
  n_ev :: real
  saturation :: real

definition signal_cell :: "parameters \<Rightarrow> geometry \<Rightarrow> error + signal" where
  "signal_cell p g =
     bind_error (py_sq (f p)) (\<lambda>f2.
     bind_error (py_div (A_ap g - A_obs g) f2) (\<lambda>q.
       (let P' = A_det g * q * BW p * L_typ p
                   * (1 - L_abs p) * (1 - L_scat p) * (1 - L_opt p) * (1 - L_crop p)
        in bind_error (py_div (lambda_c p * P') (c * h)) (\<lambda>phi_det'.
           bind_error (py_float (n_x p * n_y p)) (\<lambda>n.
           bind_error (py_div phi_det' n) (\<lambda>phi'.
             (let n_ev' = phi' * eta p * t p
              in bind_error (py_div n_ev' (n_evmax p)) (\<lambda>saturation'.
                   Inr \<lparr> P = P', phi_det = phi_det', phi = phi',
                         n_ev = n_ev', saturation = saturation' \<rparr>))))))))"

subsection \<open>Noise\<close>

record noise =
  n_sh :: "real option"
  n_d :: real
  n_q :: real
  n_fpn :: real
  n_r :: real

definition noise_cell :: "parameters \<Rightarrow> signal \<Rightarrow> error + noise" where
  "noise_cell p s =
     bind_error (db2volt (DR p)) (\<lambda>v.
     bind_error (py_div (n_evmax p) v) (\<lambda>n_r'.
       Inr \<lparr> n_sh = np_sqrt (n_ev s), n_d = 100 * t p, n_q = 5,
             n_fpn = 5 / 10000 * n_ev s, n_r = n_r' \<rparr>))"

subsection \<open>SNR calculation\<close>

text \<open>
  \<^verbatim>\<open>n_sh ** 2\<close> is a power of a NumPy scalar, which does not raise; the other squares are
  powers of Python floats, and \<^verbatim>\<open>n_q ** 2\<close> is the integer 25.
\<close>

definition snr_cell :: "signal \<Rightarrow> noise \<Rightarrow> error + real option" where
  "snr_cell s n =
     bind_error (py_sq (n_d n)) (\<lambda>d2.
     bind_error (py_sq (n_fpn n)) (\<lambda>fpn2.
     bind_error (py_sq (n_r n)) (\<lambda>r2.
     bind_error (py_sq r2) (\<lambda>r4.
       Inr (np_div (n_ev s)
             (Option.bind (n_sh n)
                (\<lambda>sh. np_sqrt (sh ^ 2 + d2 + (n_q n) ^ 2 + fpn2 + r4))))))))"

subsection \<open>The notebook, top to bottom\<close>

record notebook_state =
  si :: parameters
  geo :: geometry
  sig :: signal
  noi :: noise
  snr :: "real option"

definition notebook :: "parameters \<Rightarrow> error + notebook_state" where
  "notebook p =
     (let q = unit_conversion p
      in bind_error (constants_cell q) (\<lambda>g.
         bind_error (signal_cell q g) (\<lambda>s.
         bind_error (noise_cell q s) (\<lambda>n.
         bind_error (snr_cell s n) (\<lambda>v.
           Inr \<lparr> si = q, geo = g, sig = s, noi = n, snr = v \<rparr>)))))"

subsection \<open>Double precision\<close>

text \<open>
  The electron count as the notebook computes it in IEEE doubles: every literal and every
  result of an arithmetic operation is rounded to the nearest number with a 53-bit significand,
  ties to the even significand. The exponent range is not bounded here, so that this is the
  arithmetic of the notebook as long as no result is beyond the largest double or below the
  smallest normal one; exceptions are not part of this reading. The square \<^verbatim>\<open>x ** 2\<close> is
  taken to be the correctly rounded square.
\<close>

definition round_half_even :: "real \<Rightarrow> int" where
  "round_half_even y =
     (let n = \<lfloor>y\<rfloor>; r = y - of_int n
      in if r < 1 / 2 then n else if 1 / 2 < r then n + 1 else if even n then n else n + 1)"

definition round_double :: "real \<Rightarrow> real" where
  "round_double x =
     (if x = 0 then 0
      else (let q = 2 powr (of_int (\<lfloor>log 2 \<bar>x\<bar>\<rfloor> - 52))
            in q * of_int (round_half_even (x / q))))"

text \<open>\<^verbatim>\<open>np.pi\<close>, a double.\<close>

definition pi_double :: real where
  "pi_double = 884279719003555 / 2 ^ 48"

text \<open>The literals of the parameter cell; the pixel counts are Python integers.\<close>

definition literals :: "parameters \<Rightarrow> parameters" where
  "literals p =
     p\<lparr> R := round_double (R p), lambda_c := round_double (lambda_c p),
        D_ap := round_double (D_ap p), D_obs := round_double (D_obs p),
        D := round_double (D p), f := round_double (f p), BW := round_double (BW p),
        L_typ := round_double (L_typ p), eta := round_double (eta p), t := round_double (t p),
        n_evmax := round_double (n_evmax p), DR := round_double (DR p),
        L_abs := round_double (L_abs p), L_scat := round_double (L_scat p),
        L_opt := round_double (L_opt p), L_crop := round_double (L_crop p) \<rparr>"

definition unit_conversion_double :: "parameters \<Rightarrow> parameters" where
  "unit_conversion_double p =
     (let p = p\<lparr>R := round_double (R p * round_double (10 ^ 3))\<rparr>;
          p = p\<lparr>lambda_c := round_double (lambda_c p * round_double (1 / 10 ^ 9))\<rparr>;
          p = p\<lparr>D_ap := round_double (D_ap p * round_double (1 / 10 ^ 3))\<rparr>;
          p = p\<lparr>D_obs := round_double (D_obs p * round_double (1 / 10 ^ 3))\<rparr>;
          p = p\<lparr>D := round_double (D p * round_double (1 / 10 ^ 6))\<rparr>;
          p = p\<lparr>f := round_double (f p * round_double (1 / 10 ^ 3))\<rparr>;
          p = p\<lparr>BW := round_double (BW p * round_double (1 / 10 ^ 9))\<rparr>;
          p = p\<lparr>L_typ := round_double (L_typ p * round_double (10 ^ 6))\<rparr>
      in p)"

text \<open>The assignments of the constants cell and of the signal cell that lead to \<^verbatim>\<open>n_ev\<close>.\<close>

definition A_ap_double :: "parameters \<Rightarrow> real" where
  "A_ap_double p = round_double (round_double (pi_double * round_double ((D_ap p) ^ 2)) / 4)"

definition A_obs_double :: "parameters \<Rightarrow> real" where
  "A_obs_double p = round_double (round_double (pi_double * round_double ((D_obs p) ^ 2)) / 4)"

definition A_det_double :: "parameters \<Rightarrow> real" where
  "A_det_double p =
     round_double (round_double (round_double ((D p) ^ 2) * of_int (n_x p)) * of_int (n_y p))"

definition P_double :: "parameters \<Rightarrow> real" where
  "P_double p =
     round_double (round_double (round_double (round_double (round_double (round_double (round_double
       (A_det_double p
          * round_double (round_double (A_ap_double p - A_obs_double p) / round_double ((f p) ^ 2)))
          * BW p) * L_typ p) * round_double (1 - L_abs p)) * round_double (1 - L_scat p))
          * round_double (1 - L_opt p)) * round_double (1 - L_crop p))"

definition phi_det_double :: "parameters \<Rightarrow> real" where
  "phi_det_double p =
     round_double (round_double (lambda_c p * P_double p) / round_double (c * round_double h))"

definition phi_double :: "parameters \<Rightarrow> real" where
  "phi_double p = round_double (phi_det_double p / of_int (n_x p * n_y p))"

definition n_ev_double :: "parameters \<Rightarrow> real" where
  "n_ev_double p =
     (let q = unit_conversion_double (literals p)
      in round_double (round_double (phi_double q * eta q) * t q))"

text \<open>\<open>near k x y\<close>: \<open>x\<close> is \<open>y\<close> up to \<open>k\<close> roundings.\<close>

definition near :: "nat \<Rightarrow> real \<Rightarrow> real \<Rightarrow> bool" where
  "near k x y \<longleftrightarrow>
     (\<exists>\<rho>. (1 - 1 / 2 ^ 53) ^ k \<le> \<rho> \<and> \<rho> \<le> (1 + 1 / 2 ^ 53) ^ k \<and> x = \<rho> * y)"

subsection \<open>Valid parameters, and parameters in range\<close>

text \<open>
  The notebook checks nothing about its parameters. The predicate \<open>valid\<close> is the hypothesis
  under which the specification states its properties of valid inputs (its section 4.1): range,
  wavelength, aperture diameter, pixel pitch, focal length, bandwidth, exposure time and well
  capacity strictly positive; obscuration diameter at least 0 and strictly below the aperture
  diameter; pixel counts strictly positive; quantum efficiency in \<open>(0, 1]\<close>; each loss in
  \<open>[0, 1)\<close>; dynamic range strictly positive. The spectral radiance is not constrained.
\<close>

definition valid :: "parameters \<Rightarrow> bool" where
  "valid p \<longleftrightarrow>
     0 < R p \<and> 0 < lambda_c p \<and> 0 < D_ap p \<and> 0 < D p \<and> 0 < f p \<and> 0 < BW p
     \<and> 0 < t p \<and> 0 < n_evmax p
     \<and> 0 \<le> D_obs p \<and> D_obs p < D_ap p
     \<and> 0 < n_x p \<and> 0 < n_y p
     \<and> 0 < eta p \<and> eta p \<le> 1
     \<and> 0 \<le> L_abs p \<and> L_abs p < 1
     \<and> 0 \<le> L_scat p \<and> L_scat p < 1
     \<and> 0 \<le> L_opt p \<and> L_opt p < 1
     \<and> 0 \<le> L_crop p \<and> L_crop p < 1
     \<and> 0 < DR p"

text \<open>
  Parameters in range: magnitudes, in the units of the parameter cell, for which no
  intermediate result of the notebook is beyond the largest double and no divisor is zero as a
  double. Nothing is asked of the signs, except of the range, nor of how the parameters relate
  to each other.
\<close>

definition in_range :: "parameters \<Rightarrow> bool" where
  "in_range p \<longleftrightarrow>
     0 \<le> R p \<and> R p \<le> 10 ^ 6
     \<and> \<bar>lambda_c p\<bar> \<le> 10 ^ 6 \<and> \<bar>D_ap p\<bar> \<le> 10 ^ 6 \<and> \<bar>D_obs p\<bar> \<le> 10 ^ 6 \<and> \<bar>D p\<bar> \<le> 10 ^ 6
     \<and> 1 / 10 ^ 6 \<le> \<bar>f p\<bar> \<and> \<bar>f p\<bar> \<le> 10 ^ 6
     \<and> \<bar>BW p\<bar> \<le> 10 ^ 6 \<and> \<bar>L_typ p\<bar> \<le> 10 ^ 6 \<and> \<bar>eta p\<bar> \<le> 10 ^ 6 \<and> \<bar>t p\<bar> \<le> 10 ^ 6
     \<and> 1 / 10 ^ 6 \<le> \<bar>n_evmax p\<bar> \<and> \<bar>n_evmax p\<bar> \<le> 10 ^ 6
     \<and> \<bar>DR p\<bar> \<le> 1000
     \<and> \<bar>L_abs p\<bar> \<le> 10 ^ 6 \<and> \<bar>L_scat p\<bar> \<le> 10 ^ 6 \<and> \<bar>L_opt p\<bar> \<le> 10 ^ 6 \<and> \<bar>L_crop p\<bar> \<le> 10 ^ 6
     \<and> 1 \<le> \<bar>n_x p\<bar> \<and> \<bar>n_x p\<bar> \<le> 10 ^ 6 \<and> 1 \<le> \<bar>n_y p\<bar> \<and> \<bar>n_y p\<bar> \<le> 10 ^ 6"

text \<open>
  Parameters with a margin: every factor of the electron count is at least \<open>10\<^sup>-\<^sup>6\<close>, in its
  unit or relative to its bound, so that neither the electron count nor a factor of it comes
  out as zero once rounded.
\<close>

definition margin :: "parameters \<Rightarrow> bool" where
  "margin p \<longleftrightarrow>
     1 / 10 ^ 6 \<le> lambda_c p \<and> 1 / 10 ^ 6 \<le> D_ap p \<and> 1 / 10 ^ 6 \<le> D p
     \<and> 1 / 10 ^ 6 \<le> BW p \<and> 1 / 10 ^ 6 \<le> L_typ p \<and> 1 / 10 ^ 6 \<le> eta p \<and> 1 / 10 ^ 6 \<le> t p
     \<and> D_obs p \<le> (1 - 1 / 10 ^ 6) * D_ap p
     \<and> L_abs p \<le> 1 - 1 / 10 ^ 6 \<and> L_scat p \<le> 1 - 1 / 10 ^ 6
     \<and> L_opt p \<le> 1 - 1 / 10 ^ 6 \<and> L_crop p \<le> 1 - 1 / 10 ^ 6"

text \<open>The state the notebook is left in when run on the parameter cell as written.\<close>

definition default_run :: notebook_state where
  "default_run = projr (notebook default_parameters)"

section \<open>Properties\<close>

subsection \<open>Raising operations\<close>

lemma bind_error_simps:
  "bind_error (Inl e) k = Inl e"
  "bind_error (Inr x) k = k x"
  by (simp_all add: bind_error_def)

lemma bind_error_Inr: "bind_error m k = Inr y \<longleftrightarrow> (\<exists>x. m = Inr x \<and> k x = Inr y)"
  by (cases m) (simp_all add: bind_error_def)

lemma overflow_bound_large: "10 ^ 300 < overflow_bound"
  by (simp add: overflow_bound_def)

lemma underflow_bound_small: "0 < underflow_bound" "underflow_bound < 1 / 10 ^ 300"
  by (simp_all add: underflow_bound_def)

lemma py_div_Inr: "py_div a b = Inr q \<longleftrightarrow> underflow_bound < \<bar>b\<bar> \<and> q = a / b"
  by (auto simp: py_div_def)

lemma py_sq_Inr: "py_sq x = Inr y \<longleftrightarrow> x ^ 2 < overflow_bound \<and> y = x ^ 2"
  by (auto simp: py_sq_def)

lemma py_pow10_Inr: "py_pow10 x = Inr y \<longleftrightarrow> 10 powr x < overflow_bound \<and> y = 10 powr x"
  by (auto simp: py_pow10_def)

lemma py_float_Inr: "py_float n = Inr y \<longleftrightarrow> \<bar>of_int n\<bar> < overflow_bound \<and> y = of_int n"
  by (auto simp: py_float_def)

lemmas raising_Inr = bind_error_Inr py_div_Inr py_sq_Inr py_pow10_Inr py_float_Inr

subsection \<open>What each cell assigns\<close>

lemma notebook_cells:
  assumes "notebook p = Inr r"
  shows "si r = unit_conversion p"
    and "constants_cell (si r) = Inr (geo r)"
    and "signal_cell (si r) (geo r) = Inr (sig r)"
    and "noise_cell (si r) (sig r) = Inr (noi r)"
    and "snr_cell (sig r) (noi r) = Inr (snr r)"
  using assms by (auto simp: notebook_def Let_def bind_error_Inr)

lemma notebook_from_cells:
  assumes "constants_cell (unit_conversion p) = Inr g"
    and "signal_cell (unit_conversion p) g = Inr s"
    and "noise_cell (unit_conversion p) s = Inr n"
    and "snr_cell s n = Inr v"
  shows "notebook p = Inr \<lparr> si = unit_conversion p, geo = g, sig = s, noi = n, snr = v \<rparr>"
  using assms by (simp add: notebook_def Let_def bind_error_simps)

lemma constants_cell_Inr_iff:
  "constants_cell q = Inr g \<longleftrightarrow>
     (D_ap q) ^ 2 < overflow_bound \<and> (D_obs q) ^ 2 < overflow_bound \<and> (D q) ^ 2 < overflow_bound
     \<and> \<bar>of_int (n_x q)\<bar> < overflow_bound \<and> \<bar>of_int (n_y q)\<bar> < overflow_bound
     \<and> underflow_bound < \<bar>f q\<bar> \<and> underflow_bound < \<bar>R q + 6378137\<bar>
     \<and> g = \<lparr> R_e = 6378137, A_ap = pi * (D_ap q) ^ 2 / 4, A_obs = pi * (D_obs q) ^ 2 / 4,
             A_det = (D q) ^ 2 * of_int (n_x q) * of_int (n_y q),
             iFOV_px = rad2deg (2 * arctan (5 / 10 * D q / f q)),
             pix_smear = map_option (\<lambda>s. t q * s * 1000)
                           (np_sqrt (3986000005 / 10 / (R q + 6378137))) \<rparr>"
  by (auto simp: constants_cell_def Let_def raising_Inr)

lemma constants_cell_Inr:
  assumes "constants_cell q = Inr g"
  shows "f q \<noteq> 0" and "R q + 6378137 \<noteq> 0"
    and "R_e g = 6378137"
    and "A_ap g = pi * (D_ap q) ^ 2 / 4"
    and "A_obs g = pi * (D_obs q) ^ 2 / 4"
    and "A_det g = (D q) ^ 2 * of_int (n_x q) * of_int (n_y q)"
    and "iFOV_px g = rad2deg (2 * arctan (5 / 10 * D q / f q))"
    and "pix_smear g = map_option (\<lambda>s. t q * s * 1000) (np_sqrt (3986000005 / 10 / (R q + 6378137)))"
  using assms underflow_bound_small(1) unfolding constants_cell_Inr_iff by auto

lemma signal_cell_Inr_iff:
  "signal_cell q g = Inr s \<longleftrightarrow>
     (f q) ^ 2 < overflow_bound \<and> underflow_bound < \<bar>(f q) ^ 2\<bar> \<and> underflow_bound < \<bar>c * h\<bar>
     \<and> \<bar>of_int (n_x q * n_y q)\<bar> < overflow_bound \<and> underflow_bound < \<bar>of_int (n_x q * n_y q)\<bar>
     \<and> underflow_bound < \<bar>n_evmax q\<bar>
     \<and> s = (let P' = A_det g * ((A_ap g - A_obs g) / (f q) ^ 2) * BW q * L_typ q
                       * (1 - L_abs q) * (1 - L_scat q) * (1 - L_opt q) * (1 - L_crop q);
                 phi_det' = (lambda_c q * P') / (c * h);
                 phi' = phi_det' / of_int (n_x q * n_y q);
                 n_ev' = phi' * eta q * t q
             in \<lparr> P = P', phi_det = phi_det', phi = phi', n_ev = n_ev',
                   saturation = n_ev' / n_evmax q \<rparr>)"
  by (auto simp: signal_cell_def Let_def raising_Inr)

lemma signal_cell_Inr:
  assumes "signal_cell q g = Inr s"
  shows "f q \<noteq> 0" and "n_x q * n_y q \<noteq> 0" and "n_evmax q \<noteq> 0"
    and "P s = A_det g * ((A_ap g - A_obs g) / (f q) ^ 2) * BW q * L_typ q
                 * (1 - L_abs q) * (1 - L_scat q) * (1 - L_opt q) * (1 - L_crop q)"
    and "phi_det s = (lambda_c q * P s) / (c * h)"
    and "phi s = phi_det s / of_int (n_x q * n_y q)"
    and "n_ev s = phi s * eta q * t q"
    and "saturation s = n_ev s / n_evmax q"
  using assms underflow_bound_small(1) unfolding signal_cell_Inr_iff by (auto simp: Let_def)

lemma noise_cell_Inr_iff:
  "noise_cell q s = Inr n \<longleftrightarrow>
     10 powr (DR q / 20) < overflow_bound \<and> underflow_bound < 10 powr (DR q / 20)
     \<and> n = \<lparr> n_sh = np_sqrt (n_ev s), n_d = 100 * t q, n_q = 5,
             n_fpn = 5 / 10000 * n_ev s, n_r = n_evmax q / 10 powr (DR q / 20) \<rparr>"
  by (auto simp: noise_cell_def db2volt_def raising_Inr)

lemma noise_cell_Inr:
  assumes "noise_cell q s = Inr n"
  shows "n_sh n = np_sqrt (n_ev s)"
    and "n_d n = 100 * t q"
    and "n_q n = 5"
    and "n_fpn n = 5 / 10000 * n_ev s"
    and "n_r n = n_evmax q / 10 powr (DR q / 20)"
  using assms unfolding noise_cell_Inr_iff by auto

lemma snr_cell_Inr_iff:
  "snr_cell s n = Inr v \<longleftrightarrow>
     (n_d n) ^ 2 < overflow_bound \<and> (n_fpn n) ^ 2 < overflow_bound
     \<and> (n_r n) ^ 2 < overflow_bound \<and> ((n_r n) ^ 2) ^ 2 < overflow_bound
     \<and> v = np_div (n_ev s)
             (Option.bind (n_sh n)
                (\<lambda>sh. np_sqrt (sh ^ 2 + (n_d n) ^ 2 + (n_q n) ^ 2 + (n_fpn n) ^ 2
                                + ((n_r n) ^ 2) ^ 2)))"
  by (auto simp: snr_cell_def raising_Inr)

lemma unit_conversion_simps:
  "R (unit_conversion p) = R p * 1000"
  "lambda_c (unit_conversion p) = lambda_c p / 10 ^ 9"
  "D_ap (unit_conversion p) = D_ap p / 1000"
  "D_obs (unit_conversion p) = D_obs p / 1000"
  "D (unit_conversion p) = D p / 10 ^ 6"
  "f (unit_conversion p) = f p / 1000"
  "BW (unit_conversion p) = BW p / 10 ^ 9"
  "L_typ (unit_conversion p) = L_typ p * 10 ^ 6"
  "n_x (unit_conversion p) = n_x p"
  "n_y (unit_conversion p) = n_y p"
  "eta (unit_conversion p) = eta p"
  "t (unit_conversion p) = t p"
  "n_evmax (unit_conversion p) = n_evmax p"
  "DR (unit_conversion p) = DR p"
  "L_abs (unit_conversion p) = L_abs p"
  "L_scat (unit_conversion p) = L_scat p"
  "L_opt (unit_conversion p) = L_opt p"
  "L_crop (unit_conversion p) = L_crop p"
  by (simp_all add: unit_conversion_def Let_def)

lemma c_h_pos: "0 < c * h"
  by (simp add: c_def h_def)

lemma c_h_bounds: "1 / 10 ^ 25 \<le> c * h" "c * h \<le> 1 / 10 ^ 24"
  by (simp_all add: c_def h_def)

subsection \<open>A closed form of the electron count\<close>

lemma closed_form_rearrange:
  fixes a b d ff bw l lam ch e tt x1 x2 x3 x4 nx ny :: real
  assumes "ff \<noteq> 0" and "ch \<noteq> 0" and "nx \<noteq> 0" and "ny \<noteq> 0"
  shows "(d / 10 ^ 6) ^ 2 * nx * ny
             * ((pi * (a / 1000) ^ 2 / 4 - pi * (b / 1000) ^ 2 / 4) / (ff / 1000) ^ 2)
             * (bw / 10 ^ 9) * (l * 10 ^ 6) * x1 * x2 * x3 * x4 * (lam / 10 ^ 9) / ch
             / (nx * ny) * e * tt
         = pi * (a ^ 2 - b ^ 2) * d ^ 2 * bw * lam * e / (4 * 10 ^ 24 * ff ^ 2 * ch)
             * l * x1 * x2 * x3 * x4 * tt"
  using assms by (simp add: field_simps power_divide)

lemma n_ev_cells:
  assumes "constants_cell (unit_conversion p) = Inr g"
    and "signal_cell (unit_conversion p) g = Inr s"
  shows "n_ev s =
           pi * ((D_ap p) ^ 2 - (D_obs p) ^ 2) * (D p) ^ 2 * BW p * lambda_c p * eta p
             / (4 * 10 ^ 24 * (f p) ^ 2 * (c * h))
           * L_typ p * (1 - L_abs p) * (1 - L_scat p) * (1 - L_opt p) * (1 - L_crop p) * t p"
proof -
  note g = constants_cell_Inr[OF assms(1)]
  note s = signal_cell_Inr[OF assms(2)]
  have nz: "f p \<noteq> 0" "c * h \<noteq> 0" "(of_int (n_x p) :: real) \<noteq> 0" "(of_int (n_y p) :: real) \<noteq> 0"
    using s(1) s(2) c_h_pos by (auto simp: unit_conversion_simps)
  have "n_ev s = (D p / 10 ^ 6) ^ 2 * of_int (n_x p) * of_int (n_y p)
             * ((pi * (D_ap p / 1000) ^ 2 / 4 - pi * (D_obs p / 1000) ^ 2 / 4) / (f p / 1000) ^ 2)
             * (BW p / 10 ^ 9) * (L_typ p * 10 ^ 6)
             * (1 - L_abs p) * (1 - L_scat p) * (1 - L_opt p) * (1 - L_crop p)
             * (lambda_c p / 10 ^ 9) / (c * h)
             / (of_int (n_x p) * of_int (n_y p)) * eta p * t p"
    unfolding s(7) s(6) s(5) s(4) g(4) g(5) g(6)
    by (simp add: unit_conversion_simps)
  also have "\<dots> = pi * ((D_ap p) ^ 2 - (D_obs p) ^ 2) * (D p) ^ 2 * BW p * lambda_c p * eta p
             / (4 * 10 ^ 24 * (f p) ^ 2 * (c * h))
           * L_typ p * (1 - L_abs p) * (1 - L_scat p) * (1 - L_opt p) * (1 - L_crop p) * t p"
    using nz by (rule closed_form_rearrange)
  finally show ?thesis .
qed

lemma n_ev_product:
  assumes "notebook p = Inr r"
  shows "n_ev (sig r) =
           pi * ((D_ap p) ^ 2 - (D_obs p) ^ 2) * (D p) ^ 2 * BW p * lambda_c p * eta p
             / (4 * 10 ^ 24 * (f p) ^ 2 * (c * h))
           * L_typ p * (1 - L_abs p) * (1 - L_scat p) * (1 - L_opt p) * (1 - L_crop p) * t p"
  using n_ev_cells[of p "geo r" "sig r"] notebook_cells[OF assms] by simp

subsection \<open>Runs on parameters in range\<close>

lemma abs_prod_le:
  fixes a b :: real
  assumes "\<bar>a\<bar> \<le> A" and "\<bar>b\<bar> \<le> B"
  shows "\<bar>a * b\<bar> \<le> A * B"
proof -
  have "\<bar>a\<bar> * \<bar>b\<bar> \<le> A * B"
    using assms by (intro mult_mono) simp_all
  then show ?thesis by (simp add: abs_mult)
qed

lemma abs_sq_le:
  fixes a :: real
  assumes "\<bar>a\<bar> \<le> A"
  shows "a ^ 2 \<le> A ^ 2"
proof -
  have "\<bar>a\<bar> ^ 2 \<le> A ^ 2"
    using assms by (intro power_mono) simp_all
  then show ?thesis by simp
qed

lemma magnitude_bound:
  fixes a b d ff bw l lam ch e tt x1 x2 x3 x4 :: real
  assumes "\<bar>a\<bar> \<le> 10 ^ 6" "\<bar>b\<bar> \<le> 10 ^ 6" "\<bar>d\<bar> \<le> 10 ^ 6" "\<bar>bw\<bar> \<le> 10 ^ 6"
    and "\<bar>lam\<bar> \<le> 10 ^ 6" "\<bar>e\<bar> \<le> 10 ^ 6" "1 / 10 ^ 6 \<le> \<bar>ff\<bar>" "1 / 10 ^ 25 \<le> ch"
    and "\<bar>l\<bar> \<le> 10 ^ 6" "\<bar>x1\<bar> \<le> 10 ^ 6" "\<bar>x2\<bar> \<le> 10 ^ 6" "\<bar>x3\<bar> \<le> 10 ^ 6" "\<bar>x4\<bar> \<le> 10 ^ 6"
    and "\<bar>tt\<bar> \<le> 10 ^ 6"
  shows "\<bar>pi * (a ^ 2 - b ^ 2) * d ^ 2 * bw * lam * e / (4 * 10 ^ 24 * ff ^ 2 * ch)
            * l * (1 - x1) * (1 - x2) * (1 - x3) * (1 - x4) * tt\<bar> \<le> 10 ^ 96"
proof -
  have sq: "a ^ 2 \<le> 10 ^ 12" "b ^ 2 \<le> 10 ^ 12" "d ^ 2 \<le> 10 ^ 12"
    using abs_sq_le[OF assms(1)] abs_sq_le[OF assms(2)] abs_sq_le[OF assms(3)] by simp_all
  have a2: "\<bar>a ^ 2 - b ^ 2\<bar> \<le> 2 * 10 ^ 12"
  proof -
    have "0 \<le> a ^ 2" "0 \<le> b ^ 2" by simp_all
    with sq show ?thesis by linarith
  qed
  have d2: "\<bar>d ^ 2\<bar> \<le> 10 ^ 12"
    using sq(3) by simp
  have "\<bar>pi\<bar> \<le> 4"
    using pi_less_4 pi_ge_zero by linarith
  then have num: "\<bar>pi * (a ^ 2 - b ^ 2) * d ^ 2 * bw * lam * e\<bar>
                    \<le> 4 * (2 * 10 ^ 12) * 10 ^ 12 * 10 ^ 6 * 10 ^ 6 * 10 ^ 6"
    using a2 d2 assms(4,5,6) by (intro abs_prod_le)
  have "(1 / 10 ^ 6) ^ 2 \<le> \<bar>ff\<bar> ^ 2"
    using assms(7) by (intro power_mono) simp_all
  then have ff2: "1 / 10 ^ 12 \<le> ff ^ 2"
    by (simp add: power_divide)
  have "4 * 10 ^ 24 * (1 / 10 ^ 12) * (1 / 10 ^ 25) \<le> 4 * 10 ^ 24 * ff ^ 2 * ch"
    using ff2 assms(8) by (intro mult_mono) simp_all
  then have den: "4 / 10 ^ 13 \<le> 4 * 10 ^ 24 * ff ^ 2 * ch"
    by simp
  define N where "N = pi * (a ^ 2 - b ^ 2) * d ^ 2 * bw * lam * e"
  define M where "M = 4 * 10 ^ 24 * ff ^ 2 * ch"
  have N: "\<bar>N\<bar> \<le> 8 * 10 ^ 42"
    using num unfolding N_def by simp
  have M: "4 / 10 ^ 13 \<le> M"
    using den unfolding M_def .
  have "\<bar>N / M\<bar> = \<bar>N\<bar> / M"
    using M by simp
  also have "\<dots> \<le> (8 * 10 ^ 42) / (4 / 10 ^ 13)"
    using N M by (intro frac_le) simp_all
  finally have K: "\<bar>N / M\<bar> \<le> 2 * 10 ^ 55"
    by simp
  have x: "\<bar>1 - x1\<bar> \<le> 2 * 10 ^ 6" "\<bar>1 - x2\<bar> \<le> 2 * 10 ^ 6"
    "\<bar>1 - x3\<bar> \<le> 2 * 10 ^ 6" "\<bar>1 - x4\<bar> \<le> 2 * 10 ^ 6"
    using assms(10,11,12,13) by (simp_all add: abs_le_iff)
  have "\<bar>N / M * l * (1 - x1) * (1 - x2) * (1 - x3) * (1 - x4) * tt\<bar>
          \<le> 2 * 10 ^ 55 * 10 ^ 6 * (2 * 10 ^ 6) * (2 * 10 ^ 6) * (2 * 10 ^ 6) * (2 * 10 ^ 6) * 10 ^ 6"
    using K assms(9) x assms(14) by (intro abs_prod_le)
  also have "\<dots> \<le> (10 ^ 96 :: real)"
    by simp
  finally show ?thesis
    unfolding N_def M_def .
qed

lemma pow10_bounds:
  fixes x :: real
  assumes "\<bar>x\<bar> \<le> 1000"
  shows "1 / 10 ^ 50 \<le> 10 powr (x / 20)" "10 powr (x / 20) \<le> 10 ^ 50"
proof -
  have "10 powr (- 50) \<le> (10::real) powr (x / 20)"
    using assms by (intro powr_mono) (simp_all add: abs_le_iff)
  then show "1 / 10 ^ 50 \<le> 10 powr (x / 20)"
    by (simp add: powr_minus_divide)
  have "(10::real) powr (x / 20) \<le> 10 powr 50"
    using assms by (intro powr_mono) (simp_all add: abs_le_iff)
  then show "10 powr (x / 20) \<le> 10 ^ 50"
    by simp
qed

lemma below_overflow:
  assumes "x \<le> 10 ^ 300"
  shows "x < overflow_bound"
  using assms overflow_bound_large by linarith

lemma above_underflow:
  assumes "1 / 10 ^ 300 \<le> x"
  shows "underflow_bound < x"
  using assms underflow_bound_small(2) by linarith

lemma in_range_runs:
  assumes "in_range p"
  shows "\<exists>r. notebook p = Inr r"
proof -
  let ?q = "unit_conversion p"
  have b: "\<bar>D_ap p\<bar> \<le> 10 ^ 6" "\<bar>D_obs p\<bar> \<le> 10 ^ 6" "\<bar>D p\<bar> \<le> 10 ^ 6" "\<bar>BW p\<bar> \<le> 10 ^ 6"
    "\<bar>lambda_c p\<bar> \<le> 10 ^ 6" "\<bar>eta p\<bar> \<le> 10 ^ 6" "1 / 10 ^ 6 \<le> \<bar>f p\<bar>" "\<bar>f p\<bar> \<le> 10 ^ 6"
    "\<bar>L_typ p\<bar> \<le> 10 ^ 6" "\<bar>L_abs p\<bar> \<le> 10 ^ 6" "\<bar>L_scat p\<bar> \<le> 10 ^ 6" "\<bar>L_opt p\<bar> \<le> 10 ^ 6"
    "\<bar>L_crop p\<bar> \<le> 10 ^ 6" "\<bar>t p\<bar> \<le> 10 ^ 6" "1 / 10 ^ 6 \<le> \<bar>n_evmax p\<bar>" "\<bar>n_evmax p\<bar> \<le> 10 ^ 6"
    "\<bar>DR p\<bar> \<le> 1000" "0 \<le> R p"
    and n: "1 \<le> \<bar>n_x p\<bar>" "\<bar>n_x p\<bar> \<le> 10 ^ 6" "1 \<le> \<bar>n_y p\<bar>" "\<bar>n_y p\<bar> \<le> 10 ^ 6"
    using assms by (simp_all add: in_range_def)
  have sq: "(D_ap p) ^ 2 \<le> 10 ^ 12" "(D_obs p) ^ 2 \<le> 10 ^ 12" "(D p) ^ 2 \<le> 10 ^ 12"
    "(f p) ^ 2 \<le> 10 ^ 12"
    using abs_sq_le[OF b(1)] abs_sq_le[OF b(2)] abs_sq_le[OF b(3)] abs_sq_le[OF b(8)] by simp_all
  have "(1 / 10 ^ 6) ^ 2 \<le> \<bar>f p\<bar> ^ 2"
    using b(7) by (intro power_mono) simp_all
  then have f2: "1 / 10 ^ 12 \<le> (f p) ^ 2"
    by (simp add: power_divide)
  have nx: "\<bar>real_of_int (n_x p)\<bar> \<le> 10 ^ 6" "1 \<le> \<bar>real_of_int (n_x p)\<bar>"
  proof -
    have "real_of_int \<bar>n_x p\<bar> \<le> real_of_int (10 ^ 6)" "real_of_int 1 \<le> real_of_int \<bar>n_x p\<bar>"
      using n(1,2) by (simp_all only: of_int_le_iff)
    then show "\<bar>real_of_int (n_x p)\<bar> \<le> 10 ^ 6" "1 \<le> \<bar>real_of_int (n_x p)\<bar>"
      by simp_all
  qed
  have ny: "\<bar>real_of_int (n_y p)\<bar> \<le> 10 ^ 6" "1 \<le> \<bar>real_of_int (n_y p)\<bar>"
  proof -
    have "real_of_int \<bar>n_y p\<bar> \<le> real_of_int (10 ^ 6)" "real_of_int 1 \<le> real_of_int \<bar>n_y p\<bar>"
      using n(3,4) by (simp_all only: of_int_le_iff)
    then show "\<bar>real_of_int (n_y p)\<bar> \<le> 10 ^ 6" "1 \<le> \<bar>real_of_int (n_y p)\<bar>"
      by simp_all
  qed
  have "\<bar>real_of_int (n_x p)\<bar> * \<bar>real_of_int (n_y p)\<bar> \<le> 10 ^ 6 * 10 ^ 6"
    using nx(1) ny(1) by (intro mult_mono) simp_all
  then have nxy_hi: "\<bar>real_of_int (n_x p * n_y p)\<bar> \<le> 10 ^ 12"
    by (simp add: abs_mult)
  have "1 * 1 \<le> \<bar>real_of_int (n_x p)\<bar> * \<bar>real_of_int (n_y p)\<bar>"
    using nx(2) ny(2) by (intro mult_mono) simp_all
  then have nxy_lo: "1 \<le> \<bar>real_of_int (n_x p * n_y p)\<bar>"
    by (simp add: abs_mult)
  have c1: "(D_ap ?q) ^ 2 < overflow_bound" "(D_obs ?q) ^ 2 < overflow_bound"
    "(D ?q) ^ 2 < overflow_bound" "(f ?q) ^ 2 < overflow_bound"
    using sq by (intro below_overflow; simp add: unit_conversion_simps power_divide)+
  have c2: "\<bar>real_of_int (n_x ?q)\<bar> < overflow_bound" "\<bar>real_of_int (n_y ?q)\<bar> < overflow_bound"
    "\<bar>real_of_int (n_x ?q * n_y ?q)\<bar> < overflow_bound"
    using nx(1) ny(1) nxy_hi by (intro below_overflow; simp add: unit_conversion_simps)+
  have c3: "underflow_bound < \<bar>f ?q\<bar>"
    using b(7) by (intro above_underflow) (simp add: unit_conversion_simps)
  have c4: "underflow_bound < \<bar>R ?q + 6378137\<bar>"
    using b(18) by (intro above_underflow) (simp add: unit_conversion_simps)
  have c5: "underflow_bound < \<bar>(f ?q) ^ 2\<bar>"
    using f2 by (intro above_underflow) (simp add: unit_conversion_simps power_divide)
  have c6: "underflow_bound < \<bar>c * h\<bar>"
    using c_h_bounds(1) by (intro above_underflow) simp
  have c7: "underflow_bound < \<bar>real_of_int (n_x ?q * n_y ?q)\<bar>"
    using nxy_lo by (intro above_underflow) (simp add: unit_conversion_simps)
  have c8: "underflow_bound < \<bar>n_evmax ?q\<bar>"
    using b(15) by (intro above_underflow) (simp add: unit_conversion_simps)
  obtain g where g: "constants_cell ?q = Inr g"
    unfolding constants_cell_Inr_iff using c1 c2 c3 c4 by blast
  obtain s where s: "signal_cell ?q g = Inr s"
    unfolding signal_cell_Inr_iff using c1 c2 c5 c6 c7 c8 by blast
  have nev: "\<bar>n_ev s\<bar> \<le> 10 ^ 96"
    unfolding n_ev_cells[OF g s]
    by (rule magnitude_bound[OF b(1) b(2) b(3) b(4) b(5) b(6) b(7) c_h_bounds(1)
          b(9) b(10) b(11) b(12) b(13) b(14)])
  note dr = pow10_bounds[OF b(17)]
  have c9: "10 powr (DR ?q / 20) < overflow_bound"
    using dr(2) by (intro below_overflow) (simp add: unit_conversion_simps)
  have c10: "underflow_bound < 10 powr (DR ?q / 20)"
    using dr(1) by (intro above_underflow) (simp add: unit_conversion_simps)
  obtain n where n: "noise_cell ?q s = Inr n"
    unfolding noise_cell_Inr_iff using c9 c10 by blast
  note nf = noise_cell_Inr[OF n]
  have "\<bar>n_d n\<bar> \<le> 10 ^ 8"
    unfolding nf(2) using b(14) by (simp add: unit_conversion_simps)
  then have d2: "(n_d n) ^ 2 \<le> (10 ^ 8) ^ 2"
    by (rule abs_sq_le)
  have "\<bar>n_fpn n\<bar> \<le> 10 ^ 96"
    unfolding nf(4) using nev by simp
  then have fpn2: "(n_fpn n) ^ 2 \<le> (10 ^ 96) ^ 2"
    by (rule abs_sq_le)
  have "\<bar>n_r n\<bar> = \<bar>n_evmax p\<bar> / 10 powr (DR p / 20)"
    by (simp add: nf(5) unit_conversion_simps)
  also have "\<dots> \<le> 10 ^ 6 / (1 / 10 ^ 50)"
    using b(16) dr(1) by (intro frac_le) simp_all
  finally have r: "\<bar>n_r n\<bar> \<le> 10 ^ 56"
    by simp
  have r2: "(n_r n) ^ 2 \<le> (10 ^ 56) ^ 2"
    using r by (rule abs_sq_le)
  have r4: "((n_r n) ^ 2) ^ 2 \<le> ((10 ^ 56) ^ 2) ^ 2"
    by (rule power_mono[OF r2 zero_le_power2])
  have c11: "(n_d n) ^ 2 < overflow_bound" "(n_fpn n) ^ 2 < overflow_bound"
    "(n_r n) ^ 2 < overflow_bound" "((n_r n) ^ 2) ^ 2 < overflow_bound"
    using d2 fpn2 r2 r4 by (intro below_overflow; simp)+
  obtain v where v: "snr_cell s n = Inr v"
    unfolding snr_cell_Inr_iff using c11 by blast
  show ?thesis
    using notebook_from_cells[OF g s n v] by blast
qed

lemma snr_cell_Inr:
  assumes "snr_cell s n = Inr v"
  shows "v = np_div (n_ev s)
             (Option.bind (n_sh n)
                (\<lambda>sh. np_sqrt (sh ^ 2 + (n_d n) ^ 2 + (n_q n) ^ 2 + (n_fpn n) ^ 2
                                + ((n_r n) ^ 2) ^ 2)))"
  using assms unfolding snr_cell_Inr_iff by blast

subsection \<open>The default run\<close>

lemma default_in_range: "in_range default_parameters"
  by (simp add: in_range_def default_parameters_def)

lemma default_runs: "notebook default_parameters = Inr default_run"
  using in_range_runs[OF default_in_range] unfolding default_run_def by auto

lemma default_n_ev: "n_ev (sig default_run) = 1018333007475468750 / 945926598642347 * pi"
  unfolding n_ev_product[OF default_runs]
  by (simp add: default_parameters_def c_def h_def power_divide)

lemma default_n_ev_nonneg: "0 \<le> n_ev (sig default_run)"
  unfolding default_n_ev by simp

lemma combined_ge_25:
  fixes a b d e :: real
  shows "25 \<le> a ^ 2 + b ^ 2 + 5 ^ 2 + d ^ 2 + (e ^ 2) ^ 2"
proof -
  have "0 \<le> a ^ 2 + b ^ 2 + d ^ 2 + (e ^ 2) ^ 2" by simp
  then show ?thesis by simp
qed

lemma snr_run:
  assumes "notebook p = Inr r" and "0 \<le> n_ev (sig r)"
  shows "n_sh (noi r) = Some (sqrt (n_ev (sig r)))"
    and "snr r = Some (n_ev (sig r) /
           sqrt (n_ev (sig r) + (100 * t p) ^ 2 + 25 + (5 / 10 ^ 4 * n_ev (sig r)) ^ 2
                 + (n_evmax p / 10 powr (DR p / 20)) ^ 4))"
    and "25 \<le> n_ev (sig r) + (100 * t p) ^ 2 + 25 + (5 / 10 ^ 4 * n_ev (sig r)) ^ 2
                 + (n_evmax p / 10 powr (DR p / 20)) ^ 4"
proof -
  note cells = notebook_cells[OF assms(1)]
  note n = noise_cell_Inr[OF cells(4)]
  let ?S = "n_ev (sig r) + (100 * t p) ^ 2 + 25 + (5 / 10 ^ 4 * n_ev (sig r)) ^ 2
                 + (n_evmax p / 10 powr (DR p / 20)) ^ 4"
  show sh: "n_sh (noi r) = Some (sqrt (n_ev (sig r)))"
    using assms(2) by (simp add: n(1) np_sqrt_def)
  have "0 \<le> (100 * t p) ^ 2 + (5 / 10 ^ 4 * n_ev (sig r)) ^ 2 + (n_evmax p / 10 powr (DR p / 20)) ^ 4"
    by simp
  with assms(2) show S: "25 \<le> ?S" by linarith
  then have "\<not> ?S < 0" "sqrt ?S \<noteq> 0" by auto
  moreover have "(sqrt (n_ev (sig r))) ^ 2 + (n_d (noi r)) ^ 2 + (n_q (noi r)) ^ 2
                   + (n_fpn (noi r)) ^ 2 + ((n_r (noi r)) ^ 2) ^ 2 = ?S"
    using assms(2) by (simp add: n cells(1) unit_conversion_simps)
  ultimately show "snr r = Some (n_ev (sig r) / sqrt ?S)"
    unfolding snr_cell_Inr[OF cells(5)] sh np_div_def np_sqrt_def by simp
qed

subsection \<open>The SNR formula\<close>



subsection \<open>Unit conversion\<close>

text \<open>
  C3: unit conversion multiplies range by \<open>10\<^sup>3\<close>, centre wavelength by \<open>10\<^sup>-\<^sup>9\<close>, aperture
  and obscuration diameter by \<open>10\<^sup>-\<^sup>3\<close>, pixel pitch by \<open>10\<^sup>-\<^sup>6\<close>, focal length by
  \<open>10\<^sup>-\<^sup>3\<close>, bandwidth by \<open>10\<^sup>-\<^sup>9\<close> and spectral radiance by \<open>10\<^sup>6\<close>; every other
  parameter is left as it is; and the parameters the later cells see are the result of
  one such conversion.
\<close>

theorem unit_conversion_factors:
  "R (unit_conversion p) = R p * 10 ^ 3
   \<and> lambda_c (unit_conversion p) = lambda_c p * (1 / 10 ^ 9)
   \<and> D_ap (unit_conversion p) = D_ap p * (1 / 10 ^ 3)
   \<and> D_obs (unit_conversion p) = D_obs p * (1 / 10 ^ 3)
   \<and> D (unit_conversion p) = D p * (1 / 10 ^ 6)
   \<and> f (unit_conversion p) = f p * (1 / 10 ^ 3)
   \<and> BW (unit_conversion p) = BW p * (1 / 10 ^ 9)
   \<and> L_typ (unit_conversion p) = L_typ p * 10 ^ 6
   \<and> n_x (unit_conversion p) = n_x p
   \<and> n_y (unit_conversion p) = n_y p
   \<and> eta (unit_conversion p) = eta p
   \<and> t (unit_conversion p) = t p
   \<and> n_evmax (unit_conversion p) = n_evmax p
   \<and> DR (unit_conversion p) = DR p
   \<and> L_abs (unit_conversion p) = L_abs p
   \<and> L_scat (unit_conversion p) = L_scat p
   \<and> L_opt (unit_conversion p) = L_opt p
   \<and> L_crop (unit_conversion p) = L_crop p
   \<and> (\<forall>r. notebook p = Inr r \<longrightarrow> si r = unit_conversion p)"
  using notebook_cells(1)[of p] by (simp add: unit_conversion_simps)

theorem unit_conversion_factors_witness:
  "notebook default_parameters = Inr default_run
   \<and> si default_run = unit_conversion default_parameters
   \<and> R (si default_run) = 400000
   \<and> lambda_c (si default_run) = 625 / 10 ^ 9
   \<and> D_ap (si default_run) = 114 / 10000
   \<and> D_obs (si default_run) = 0
   \<and> D (si default_run) = 6 / 10 ^ 6
   \<and> f (si default_run) = 16 / 1000
   \<and> BW (si default_run) = 300 / 10 ^ 9
   \<and> L_typ (si default_run) = 20450000"
proof -
  have "si default_run = unit_conversion default_parameters"
    using unit_conversion_factors[of default_parameters] default_runs by blast
  moreover have "R (unit_conversion default_parameters) = 400000"
    "lambda_c (unit_conversion default_parameters) = 625 / 10 ^ 9"
    "D_ap (unit_conversion default_parameters) = 114 / 10000"
    "D_obs (unit_conversion default_parameters) = 0"
    "D (unit_conversion default_parameters) = 6 / 10 ^ 6"
    "f (unit_conversion default_parameters) = 16 / 1000"
    "BW (unit_conversion default_parameters) = 300 / 10 ^ 9"
    "L_typ (unit_conversion default_parameters) = 20450000"
    using unit_conversion_factors[of default_parameters]
    by (simp_all add: default_parameters_def)
  ultimately show ?thesis
    using default_runs by simp
qed

subsection \<open>The signal chain\<close>

text \<open>
  C4: on the converted parameters, the collected power, the photon rate, the per-pixel photon
  rate and the electron count are computed by the chain
  \<open>P = A_det * ((A_ap - A_obs) / f\<^sup>2) * BW * L_typ * (1 - L_abs) * (1 - L_scat) * (1 - L_opt) * (1 - L_crop)\<close>,
  \<open>phi_det = (lambda_c * P) / (c * h)\<close>, \<open>phi = phi_det / (n_x * n_y)\<close>,
  \<open>n_ev = phi * eta * t\<close>.
\<close>

theorem signal_chain:
  assumes "notebook p = Inr r"
  shows "P (sig r) =
           A_det (geo r) * ((A_ap (geo r) - A_obs (geo r)) / (f (si r)) ^ 2) * BW (si r) * L_typ (si r)
             * (1 - L_abs (si r)) * (1 - L_scat (si r)) * (1 - L_opt (si r)) * (1 - L_crop (si r))
       \<and> phi_det (sig r) = (lambda_c (si r) * P (sig r)) / (c * h)
       \<and> phi (sig r) = phi_det (sig r) / (of_int (n_x (si r)) * of_int (n_y (si r)))
       \<and> n_ev (sig r) = phi (sig r) * eta (si r) * t (si r)"
proof -
  note s = signal_cell_Inr[OF notebook_cells(3)[OF assms]]
  show ?thesis
    using s(4) s(5) s(6) s(7) by simp
qed

theorem signal_chain_witness:
  "notebook default_parameters = Inr default_run
   \<and> P (sig default_run) =
       A_det (geo default_run) * ((A_ap (geo default_run) - A_obs (geo default_run)) / (16 / 1000) ^ 2)
         * (300 / 10 ^ 9) * 20450000 * (1 - 11 / 100) * (1 - 58 / 1000) * (1 - 2 / 10) * (1 - 6 / 10)
   \<and> phi_det (sig default_run) = (625 / 10 ^ 9 * P (sig default_run)) / (c * h)
   \<and> phi (sig default_run) = phi_det (sig default_run) / (2200 * 3208)
   \<and> n_ev (sig default_run) = phi (sig default_run) * (35 / 100) * (13 / 100000)"
proof -
  have si: "f (si default_run) = 16 / 1000" "BW (si default_run) = 300 / 10 ^ 9"
    "L_typ (si default_run) = 20450000" "L_abs (si default_run) = 11 / 100"
    "L_scat (si default_run) = 58 / 1000" "L_opt (si default_run) = 2 / 10"
    "L_crop (si default_run) = 6 / 10" "lambda_c (si default_run) = 625 / 10 ^ 9"
    "n_x (si default_run) = 2200" "n_y (si default_run) = 3208"
    "eta (si default_run) = 35 / 100" "t (si default_run) = 13 / 100000"
    by (simp_all add: notebook_cells(1)[OF default_runs] unit_conversion_simps
        default_parameters_def)
  show ?thesis
    using signal_chain[OF default_runs] default_runs
    by (simp only: si of_int_numeral)
qed

subsection \<open>The noise terms\<close>

text \<open>
  C5: shot noise is the square root of \<open>n_ev\<close> (\<^verbatim>\<open>nan\<close> when \<open>n_ev\<close> is negative), dark
  current noise is \<open>100 * t\<close>, quantization noise is the constant 5, fixed pattern noise is
  \<open>5 * 10\<^sup>-\<^sup>4 * n_ev\<close>, and readout noise is \<open>n_evmax / 10 powr (DR / 20)\<close>.
\<close>

theorem noise_terms:
  assumes "notebook p = Inr r"
  shows "n_sh (noi r) = (if n_ev (sig r) < 0 then None else Some (sqrt (n_ev (sig r))))
       \<and> n_d (noi r) = 100 * t (si r)
       \<and> n_q (noi r) = 5
       \<and> n_fpn (noi r) = 5 / 10 ^ 4 * n_ev (sig r)
       \<and> n_r (noi r) = n_evmax (si r) / 10 powr (DR (si r) / 20)"
proof -
  note n = noise_cell_Inr[OF notebook_cells(4)[OF assms]]
  show ?thesis
    using n by (simp add: np_sqrt_def)
qed

theorem noise_terms_witness:
  "notebook default_parameters = Inr default_run
   \<and> n_sh (noi default_run) = Some (sqrt (n_ev (sig default_run)))
   \<and> n_d (noi default_run) = 13 / 1000
   \<and> n_q (noi default_run) = 5
   \<and> n_fpn (noi default_run) = 5 / 10 ^ 4 * n_ev (sig default_run)
   \<and> n_r (noi default_run) = 12000 / 10 powr (55 / 20)
   \<and> n_r (noi default_run) \<noteq> 12000 / 55"
proof -
  have "(10::real) powr 2 < 10 powr (55 / 20)"
    by (rule powr_less_mono) simp_all
  then have "(55::real) < 10 powr (55 / 20)"
    by simp
  then have "12000 / 10 powr (55 / 20) \<noteq> (12000 / 55 :: real)"
    by (simp add: field_simps)
  then show ?thesis
    using noise_terms[OF default_runs] default_runs default_n_ev_nonneg
    by (simp add: notebook_cells(1)[OF default_runs] unit_conversion_simps default_parameters_def)
qed

subsection \<open>Pixel smear\<close>

text \<open>
  C6: the Earth radius is 6378137 m and the pixel smear is the exposure time times the square
  root of \<open>398600000.5 / (R + R_e)\<close> times 1000, with the range in metres (\<^verbatim>\<open>nan\<close> when
  the quotient under the root is negative).
\<close>

theorem pix_smear_formula:
  assumes "notebook p = Inr r"
  shows "R_e (geo r) = 6378137
       \<and> pix_smear (geo r) =
           (if (3986000005 / 10) / (R (si r) + R_e (geo r)) < 0 then None
            else Some (t (si r) * sqrt ((3986000005 / 10) / (R (si r) + R_e (geo r))) * 1000))"
proof -
  note g = constants_cell_Inr[OF notebook_cells(2)[OF assms]]
  show ?thesis
    unfolding g(3) g(8) by (simp add: np_sqrt_def)
qed

theorem pix_smear_formula_witness:
  "notebook default_parameters = Inr default_run
   \<and> R_e (geo default_run) = 6378137
   \<and> pix_smear (geo default_run) = Some (13 / 100000 * sqrt ((3986000005 / 10) / (400000 + 6378137)) * 1000)"
  using pix_smear_formula[OF default_runs] default_runs
  by (simp add: notebook_cells(1)[OF default_runs] unit_conversion_simps default_parameters_def)

subsection \<open>The reference scenario\<close>

text \<open>Bounds on \<open>pi\<close> from the Maclaurin expansion of the sine at \<open>pi / 6\<close>.\<close>

lemma sin_coeff_sum_7:
  "(\<Sum>m<7. sin_coeff m * x ^ m) = x - x ^ 3 / 6 + x ^ 5 / 120"
proof -
  have "(\<Sum>m<Suc (Suc (Suc (Suc (Suc (Suc (Suc 0)))))). sin_coeff m * x ^ m)
          = x - x ^ 3 / 6 + x ^ 5 / 120"
    by (simp add: sin_coeff_Suc cos_coeff_Suc eval_nat_numeral)
  then show ?thesis by (simp add: eval_nat_numeral)
qed

lemma sin_coeff_sum_9:
  "(\<Sum>m<9. sin_coeff m * x ^ m) = x - x ^ 3 / 6 + x ^ 5 / 120 - x ^ 7 / 5040"
proof -
  have "(\<Sum>m<Suc (Suc (Suc (Suc (Suc (Suc (Suc (Suc (Suc 0)))))))). sin_coeff m * x ^ m)
          = x - x ^ 3 / 6 + x ^ 5 / 120 - x ^ 7 / 5040"
    by (simp add: sin_coeff_Suc cos_coeff_Suc eval_nat_numeral)
  then show ?thesis by (simp add: eval_nat_numeral)
qed

lemma pi_gt_314: "314 / 100 < pi"
proof (rule ccontr)
  assume "\<not> 314 / 100 < pi"
  then have le: "pi / 6 \<le> 314 / 600" by simp
  have "sin (pi / 6) \<le> sin (314 / 600)"
  proof (rule sin_monotone_2pi_le)
    show "- (pi / 2) \<le> pi / 6" using pi_ge_zero by linarith
    show "pi / 6 \<le> 314 / 600" by (rule le)
    show "314 / 600 \<le> pi / 2" using pi_ge_two by linarith
  qed
  then have half: "1 / 2 \<le> sin (314 / 600 :: real)" by (simp add: sin_30)
  have "\<bar>sin (314 / 600 :: real) - (\<Sum>m<7. sin_coeff m * (314 / 600) ^ m)\<bar>
          \<le> inverse (fact 7) * \<bar>314 / 600\<bar> ^ 7"
    by (rule Maclaurin_sin_bound)
  then have "sin (314 / 600 :: real)
               \<le> (314 / 600 - (314 / 600) ^ 3 / 6 + (314 / 600) ^ 5 / 120)
                  + inverse (fact 7) * \<bar>314 / 600\<bar> ^ 7"
    unfolding sin_coeff_sum_7 by linarith
  also have "\<dots> < 1 / 2"
    by (simp add: fact_numeral power_divide)
  finally show False using half by simp
qed

lemma pi_lt_3142: "pi < 3142 / 1000"
proof (rule ccontr)
  assume "\<not> pi < 3142 / 1000"
  then have le: "3142 / 6000 \<le> pi / 6" by simp
  have "sin (3142 / 6000) \<le> sin (pi / 6)"
  proof (rule sin_monotone_2pi_le)
    show "- (pi / 2) \<le> 3142 / 6000" using pi_ge_zero by linarith
    show "3142 / 6000 \<le> pi / 6" by (rule le)
    show "pi / 6 \<le> pi / 2" using pi_ge_zero by linarith
  qed
  then have half: "sin (3142 / 6000 :: real) \<le> 1 / 2" by (simp add: sin_30)
  have "\<bar>sin (3142 / 6000 :: real) - (\<Sum>m<9. sin_coeff m * (3142 / 6000) ^ m)\<bar>
          \<le> inverse (fact 9) * \<bar>3142 / 6000\<bar> ^ 9"
    by (rule Maclaurin_sin_bound)
  then have "(3142 / 6000 - (3142 / 6000) ^ 3 / 6 + (3142 / 6000) ^ 5 / 120
                - (3142 / 6000) ^ 7 / 5040)
               - inverse (fact 9) * \<bar>3142 / 6000\<bar> ^ 9 \<le> sin (3142 / 6000 :: real)"
    unfolding sin_coeff_sum_9 by linarith
  moreover have "1 / 2 < (3142 / 6000 - (3142 / 6000) ^ 3 / 6 + (3142 / 6000) ^ 5 / 120
                - (3142 / 6000) ^ 7 / 5040)
               - inverse (fact 9) * \<bar>3142 / 6000 :: real\<bar> ^ 9"
    by (simp add: fact_numeral power_divide)
  ultimately show False using half by linarith
qed

lemma default_n_ev_bounds:
  "3380 < n_ev (sig default_run)" "n_ev (sig default_run) < 3383"
  unfolding default_n_ev using pi_gt_314 pi_lt_3142 by simp_all

lemma default_readout: "(12000 / 10 powr (55 / 20)) ^ 4 = (207360 :: real)"
proof -
  have "((10::real) powr (55 / 20)) ^ 4 = 10 powr 11"
    by (simp add: powr_power)
  also have "\<dots> = 10 ^ 11"
    by simp
  finally show ?thesis
    by (simp add: power_divide)
qed

lemma db_lower: "10 powr (13 / 15) \<le> (7362 / 1000 :: real)"
proof -
  have "((10::real) powr (13 / 15)) ^ 15 = 10 powr 13"
    by (simp add: powr_power)
  also have "\<dots> = 10 ^ 13" by simp
  also have "\<dots> \<le> (7362 / 1000 :: real) ^ 15"
    by (simp add: power_divide)
  finally have "((10::real) powr (13 / 15)) ^ 15 \<le> (7362 / 1000) ^ 15" .
  then show ?thesis
    by (subst (asm) power_mono_iff) simp_all
qed

lemma db_upper: "(7369 / 1000 :: real) \<le> 10 powr (7 / 8)"
proof -
  have "(7369 / 1000 :: real) ^ 8 \<le> 10 ^ 7"
    by (simp add: power_divide)
  also have "\<dots> = 10 powr 7" by simp
  also have "\<dots> = ((10::real) powr (7 / 8)) ^ 8"
    by (simp add: powr_power)
  finally have "(7369 / 1000 :: real) ^ 8 \<le> (10 powr (7 / 8)) ^ 8" .
  then show ?thesis
    by (subst (asm) power_mono_iff) simp_all
qed

text \<open>
  C9: on the parameter cell as written the notebook runs through, \<open>n_ev\<close> is within 1% of
  3380 electrons, the saturation fraction within 1% of 0.282, and the linear SNR within 1% of
  7.4, which is 8.7 dB to one decimal.
\<close>

theorem reference_scenario:
  "notebook default_parameters = Inr default_run
   \<and> \<bar>n_ev (sig default_run) - 3380\<bar> \<le> 3380 / 100
   \<and> \<bar>saturation (sig default_run) - 282 / 1000\<bar> \<le> (282 / 1000) / 100
   \<and> (\<exists>s. snr default_run = Some s
          \<and> \<bar>s - 74 / 10\<bar> \<le> (74 / 10) / 100
          \<and> \<bar>pow2db s - 87 / 10\<bar> \<le> 5 / 100)"
proof -
  let ?n = "n_ev (sig default_run)"
  note b = default_n_ev_bounds
  have n0: "0 \<le> ?n" using b(1) by simp
  have sat: "saturation (sig default_run) = ?n / 12000"
    using signal_cell_Inr(8)[OF notebook_cells(3)[OF default_runs]]
    by (simp add: notebook_cells(1)[OF default_runs] unit_conversion_simps default_parameters_def)
  let ?S = "?n + (100 * t default_parameters) ^ 2 + 25 + (5 / 10 ^ 4 * ?n) ^ 2
              + (n_evmax default_parameters / 10 powr (DR default_parameters / 20)) ^ 4"
  let ?s = "?n / sqrt ?S"
  have snr: "snr default_run = Some ?s"
    by (rule snr_run(2)[OF default_runs n0])
  have S: "?S = ?n + (13 / 1000) ^ 2 + 25 + (5 / 10 ^ 4 * ?n) ^ 2 + 207360"
    using default_readout by (simp add: default_parameters_def)
  have "0 \<le> 5 / 10 ^ 4 * ?n" "5 / 10 ^ 4 * ?n \<le> 17 / 10"
    using b by simp_all
  then have "(5 / 10 ^ 4 * ?n) ^ 2 \<le> (17 / 10) ^ 2"
    by (rule power_mono[rotated])
  then have fpn: "(5 / 10 ^ 4 * ?n) ^ 2 \<le> 3"
    by (simp add: power_divide)
  have fpn0: "0 \<le> (5 / 10 ^ 4 * ?n) ^ 2" by simp
  have "(45909 / 100) ^ 2 \<le> (3380 + (13 / 1000) ^ 2 + 25 + 0 + 207360 :: real)"
    by (simp add: power_divide)
  then have S_lo: "(45909 / 100) ^ 2 \<le> ?S"
    unfolding S using b(1) fpn0 by linarith
  have "(3383 + (13 / 1000) ^ 2 + 25 + 3 + 207360 :: real) \<le> (4591 / 10) ^ 2"
    by (simp add: power_divide)
  then have S_hi: "?S \<le> (4591 / 10) ^ 2"
    unfolding S using b(2) fpn by linarith
  have r_lo: "45909 / 100 \<le> sqrt ?S"
    using S_lo by (rule real_le_rsqrt)
  have r_hi: "sqrt ?S \<le> 4591 / 10"
    by (rule real_le_lsqrt) (use S_hi in simp_all)
  have r_pos: "0 < sqrt ?S" using r_lo by linarith
  have "7362 / 1000 \<le> 3380 / (4591 / 10 :: real)" by simp
  also have "\<dots> \<le> ?s"
    by (rule frac_le) (rule n0, rule less_imp_le[OF b(1)], rule r_pos, rule r_hi)
  finally have s_lo: "7362 / 1000 \<le> ?s" .
  have "?s \<le> 3383 / (45909 / 100)"
    by (rule frac_le) (simp, rule less_imp_le[OF b(2)], simp, rule r_lo)
  also have "\<dots> \<le> (7369 / 1000 :: real)" by simp
  finally have s_hi: "?s \<le> 7369 / 1000" .
  define s where "s = ?s"
  have s_lo': "7362 / 1000 \<le> s" and s_hi': "s \<le> 7369 / 1000"
    using s_lo s_hi by (simp_all only: s_def)
  have s_pos: "0 < s" using s_lo' by linarith
  have "10 powr (13 / 15) \<le> s"
    using db_lower s_lo' by linarith
  then have "13 / 15 \<le> log 10 s"
    using s_pos le_log_iff[of 10 s "13 / 15"] by simp
  then have l_lo: "173 / 200 \<le> log 10 s" by linarith
  have "s \<le> 10 powr (7 / 8)"
    using db_upper s_hi' by linarith
  then have l_hi: "log 10 s \<le> 7 / 8"
    using s_pos log_le_iff[of 10 s "7 / 8"] by simp
  have db: "\<bar>pow2db s - 87 / 10\<bar> \<le> 5 / 100"
    unfolding pow2db_def using l_lo l_hi by linarith
  have "\<bar>s - 74 / 10\<bar> \<le> (74 / 10) / 100"
    using s_lo' s_hi' by linarith
  with snr db have "\<exists>s. snr default_run = Some s
          \<and> \<bar>s - 74 / 10\<bar> \<le> (74 / 10) / 100
          \<and> \<bar>pow2db s - 87 / 10\<bar> \<le> 5 / 100"
    unfolding s_def by blast
  moreover have "\<bar>?n - 3380\<bar> \<le> 3380 / 100"
    using b by linarith
  moreover have "\<bar>saturation (sig default_run) - 282 / 1000\<bar> \<le> (282 / 1000) / 100"
    unfolding sat using b by linarith
  ultimately show ?thesis
    using default_runs by blast
qed

subsection \<open>Sign of the electron count\<close>

lemma gain_pos:
  assumes "valid p"
  shows "0 < pi * ((D_ap p) ^ 2 - (D_obs p) ^ 2) * (D p) ^ 2 * BW p * lambda_c p * eta p
               / (4 * 10 ^ 24 * (f p) ^ 2 * (c * h))"
proof -
  have "(D_obs p) ^ 2 < (D_ap p) ^ 2"
    using assms by (intro power_strict_mono) (simp_all add: valid_def)
  then have "0 < (D_ap p) ^ 2 - (D_obs p) ^ 2" by simp
  moreover have "0 < (D p) ^ 2" "0 < BW p" "0 < lambda_c p" "0 < eta p"
    using assms by (simp_all add: valid_def)
  ultimately have num: "0 < pi * ((D_ap p) ^ 2 - (D_obs p) ^ 2) * (D p) ^ 2 * BW p * lambda_c p * eta p"
    by (intro mult_pos_pos) simp_all
  have "0 < (f p) ^ 2"
    using assms by (simp add: valid_def)
  then have "0 < 4 * 10 ^ 24 * (f p) ^ 2 * (c * h)"
    by (simp add: c_def h_def)
  with num show ?thesis
    by (rule divide_pos_pos)
qed

lemma transmittance_pos:
  assumes "valid p"
  shows "0 < 1 - L_abs p" "0 < 1 - L_scat p" "0 < 1 - L_opt p" "0 < 1 - L_crop p"
  using assms by (simp_all add: valid_def)

lemma n_ev_sign:
  assumes "valid p" and "notebook p = Inr r"
  shows "0 \<le> L_typ p \<Longrightarrow> 0 \<le> n_ev (sig r)"
    and "0 < L_typ p \<Longrightarrow> 0 < n_ev (sig r)"
proof -
  note g = gain_pos[OF assms(1)] and l = transmittance_pos[OF assms(1)]
  have tp: "0 < t p" using assms(1) by (simp add: valid_def)
  show "0 < n_ev (sig r)" if "0 < L_typ p"
    unfolding n_ev_product[OF assms(2)]
    using g l tp that by (intro mult_pos_pos)
  show "0 \<le> n_ev (sig r)" if "0 \<le> L_typ p"
    unfolding n_ev_product[OF assms(2)]
    using g l tp that by (intro mult_nonneg_nonneg) simp_all
qed


subsection \<open>No validation\<close>

text \<open>
  Against C2 as stated: with the obscuration diameter equal to the aperture diameter the
  notebook runs through and reports an SNR of 0, and with a quantum efficiency of 0 or of 2 it
  runs through as well.
\<close>

theorem validation_counterexample:
  "map_sum id snr (notebook (default_parameters\<lparr>D_obs := 114 / 10\<rparr>)) = Inr (Some 0)
   \<and> \<not> isl (notebook (default_parameters\<lparr>eta := 0\<rparr>))
   \<and> \<not> isl (notebook (default_parameters\<lparr>eta := 2\<rparr>))"
proof -
  let ?p = "default_parameters\<lparr>D_obs := 114 / 10\<rparr>"
  have "in_range ?p"
    by (simp add: in_range_def default_parameters_def)
  then obtain r where r: "notebook ?p = Inr r"
    using in_range_runs by blast
  have "n_ev (sig r) = 0"
    unfolding n_ev_product[OF r] by (simp add: default_parameters_def)
  then have "snr r = Some 0"
    using snr_run(2)[OF r] by simp
  then have "map_sum id snr (notebook ?p) = Inr (Some 0)"
    using r by simp
  moreover have "in_range (default_parameters\<lparr>eta := 0\<rparr>)" "in_range (default_parameters\<lparr>eta := 2\<rparr>)"
    by (simp_all add: in_range_def default_parameters_def)
  then have "\<not> isl (notebook (default_parameters\<lparr>eta := 0\<rparr>))"
    "\<not> isl (notebook (default_parameters\<lparr>eta := 2\<rparr>))"
    using in_range_runs by fastforce+
  ultimately show ?thesis by blast
qed

text \<open>
  C2, amended: the notebook validates nothing. For parameters in range the run goes through
  every cell and returns a state, whatever the obscuration diameter, also one equal to or
  greater than the aperture diameter, and whatever the quantum efficiency, also 0 or a value
  above 1.
\<close>

theorem no_validation:
  assumes "in_range p"
  shows "\<exists>r. notebook p = Inr r"
  using assms by (rule in_range_runs)

theorem no_validation_witness:
  "in_range (default_parameters\<lparr>D_obs := 20, eta := 2\<rparr>)
   \<and> D_ap (default_parameters\<lparr>D_obs := 20, eta := 2\<rparr>) \<le> D_obs (default_parameters\<lparr>D_obs := 20, eta := 2\<rparr>)
   \<and> 1 < eta (default_parameters\<lparr>D_obs := 20, eta := 2\<rparr>)
   \<and> (\<exists>r. notebook (default_parameters\<lparr>D_obs := 20, eta := 2\<rparr>) = Inr r)"
proof -
  have i: "in_range (default_parameters\<lparr>D_obs := 20, eta := 2\<rparr>)"
    by (simp add: in_range_def default_parameters_def)
  show ?thesis
    using no_validation[OF i] i by (simp add: default_parameters_def)
qed

subsection \<open>Monotonicity\<close>




subsection \<open>Non-negativity\<close>

text \<open>
  Against C8 as stated: the parameter cell with the spectral radiance set to 0 satisfies every
  validation rule, and the SNR is 0, not strictly positive.
\<close>

theorem nonnegativity_counterexample:
  "valid (default_parameters\<lparr>L_typ := 0\<rparr>)
   \<and> map_sum id snr (notebook (default_parameters\<lparr>L_typ := 0\<rparr>)) = Inr (Some 0)"
proof -
  let ?p = "default_parameters\<lparr>L_typ := 0\<rparr>"
  have v: "valid ?p"
    by (simp add: valid_def default_parameters_def)
  have "in_range ?p"
    by (simp add: in_range_def default_parameters_def)
  then obtain r where r: "notebook ?p = Inr r"
    using in_range_runs by blast
  have "n_ev (sig r) = 0"
    unfolding n_ev_product[OF r] by simp
  then have "snr r = Some 0"
    using snr_run(2)[OF r] by simp
  then show ?thesis
    using v r by simp
qed

text \<open>
  C8, amended: for valid parameters in range with a spectral radiance of at least 0 the
  notebook runs through; \<open>A_ap\<close>, \<open>A_obs\<close>, \<open>A_det\<close>, \<open>n_ev\<close>, the saturation fraction and
  the five noise terms are at least 0; the noise sum under the root is at least 25, so the
  division is never by zero; and the SNR is a number that is at least 0, strictly positive when
  the parameters have a margin.
\<close>

theorem nonnegativity:
  assumes "valid p" and "in_range p" and "0 \<le> L_typ p"
  shows "\<exists>r sh s. notebook p = Inr r
           \<and> 0 \<le> A_ap (geo r) \<and> 0 \<le> A_obs (geo r) \<and> 0 \<le> A_det (geo r)
           \<and> 0 \<le> n_ev (sig r) \<and> 0 \<le> saturation (sig r)
           \<and> n_sh (noi r) = Some sh \<and> 0 \<le> sh
           \<and> 0 \<le> n_d (noi r) \<and> 0 \<le> n_q (noi r) \<and> 0 \<le> n_fpn (noi r) \<and> 0 \<le> n_r (noi r)
           \<and> 25 \<le> sh ^ 2 + (n_d (noi r)) ^ 2 + (n_q (noi r)) ^ 2 + (n_fpn (noi r)) ^ 2
                   + ((n_r (noi r)) ^ 2) ^ 2
           \<and> snr r = Some s \<and> 0 \<le> s \<and> (margin p \<longrightarrow> 0 < s)"
proof -
  obtain r where r: "notebook p = Inr r"
    using in_range_runs[OF assms(2)] by blast
  note cells = notebook_cells[OF r]
  note g = constants_cell_Inr[OF cells(2)]
  note sg = signal_cell_Inr[OF cells(3)]
  note n = noise_cell_Inr[OF cells(4)]
  have v: "0 < n_x p" "0 < n_y p" "0 < n_evmax p" "0 < t p"
    using assms(1) by (simp_all add: valid_def)
  have n0: "0 \<le> n_ev (sig r)"
    using n_ev_sign(1)[OF assms(1) r assms(3)] .
  let ?sh = "sqrt (n_ev (sig r))"
  let ?S = "n_ev (sig r) + (100 * t p) ^ 2 + 25 + (5 / 10 ^ 4 * n_ev (sig r)) ^ 2
              + (n_evmax p / 10 powr (DR p / 20)) ^ 4"
  let ?s = "n_ev (sig r) / sqrt ?S"
  note run = snr_run[OF r n0]
  have Spos: "0 < sqrt ?S"
    using run(3) by simp
  have geo: "0 \<le> A_ap (geo r)" "0 \<le> A_obs (geo r)" "0 \<le> A_det (geo r)"
    using v by (simp_all add: g cells(1) unit_conversion_simps)
  have sat: "0 \<le> saturation (sig r)"
    using n0 v by (simp add: sg(8) cells(1) unit_conversion_simps)
  have noise: "0 \<le> n_d (noi r)" "0 \<le> n_q (noi r)" "0 \<le> n_fpn (noi r)" "0 \<le> n_r (noi r)"
    using n0 v by (simp_all add: n cells(1) unit_conversion_simps less_imp_le)
  have sum: "25 \<le> ?sh ^ 2 + (n_d (noi r)) ^ 2 + (n_q (noi r)) ^ 2 + (n_fpn (noi r)) ^ 2
                   + ((n_r (noi r)) ^ 2) ^ 2"
    unfolding n(3) by (rule combined_ge_25)
  have s0: "0 \<le> ?s"
    using n0 Spos by (intro divide_nonneg_pos)
  have s1: "0 < ?s" if "margin p"
  proof -
    have "0 < L_typ p"
      using that by (simp add: margin_def)
    then show ?thesis
      using n_ev_sign(2)[OF assms(1) r] Spos by (intro divide_pos_pos)
  qed
  show ?thesis
    using r geo n0 sat run(1) noise sum run(2) s0 s1
    by (intro exI[of _ r] exI[of _ ?sh] exI[of _ ?s]) simp
qed

lemma default_margin: "margin default_parameters"
  by (simp add: margin_def default_parameters_def)

theorem nonnegativity_witness:
  "valid default_parameters \<and> in_range default_parameters \<and> 0 \<le> L_typ default_parameters
   \<and> margin default_parameters
   \<and> (\<exists>s. snr default_run = Some s \<and> 0 < s)
   \<and> 0 \<le> n_ev (sig default_run) \<and> 0 \<le> saturation (sig default_run)
   \<and> 0 \<le> n_r (noi default_run)"
proof -
  have v: "valid default_parameters" and l: "0 \<le> L_typ default_parameters"
    by (simp_all add: valid_def default_parameters_def)
  from nonnegativity[OF v default_in_range l] default_margin default_runs
  have "(\<exists>s. snr default_run = Some s \<and> 0 < s)
   \<and> 0 \<le> n_ev (sig default_run) \<and> 0 \<le> saturation (sig default_run)
   \<and> 0 \<le> n_r (noi default_run)"
    by auto
  with v l default_in_range default_margin show ?thesis by blast
qed

subsection \<open>Rounding\<close>

lemma round_half_even_error: "\<bar>of_int (round_half_even y) - y\<bar> \<le> 1 / 2"
proof -
  have "of_int \<lfloor>y\<rfloor> \<le> y" "y < of_int \<lfloor>y\<rfloor> + 1"
    by linarith+
  then show ?thesis
    by (auto simp: round_half_even_def Let_def)
qed

lemma round_double_0: "round_double 0 = 0"
  by (simp add: round_double_def)

lemma round_double_eval:
  assumes "2 ^ 52 \<le> x * 2 ^ k" and "x * 2 ^ k < 2 ^ 53"
    and "of_int (round_half_even (x * 2 ^ k)) / 2 ^ k = v"
  shows "round_double x = v"
proof -
  have pos: "0 < x"
  proof (rule ccontr)
    assume "\<not> 0 < x"
    then have "x * 2 ^ k \<le> 0"
      by (simp add: mult_le_0_iff)
    moreover have "(0::real) < 2 ^ 52"
      by simp
    ultimately show False
      using assms(1) by linarith
  qed
  have lo: "2 powr (of_int (52 - int k)) \<le> x"
  proof -
    have "2 powr (of_int (52 - int k)) = (2::real) ^ 52 / 2 ^ k"
      by (simp add: powr_diff powr_realpow)
    also have "\<dots> \<le> x"
      using assms(1) by (simp add: field_simps)
    finally show ?thesis .
  qed
  have hi: "x < 2 powr (of_int (52 - int k) + 1)"
  proof -
    have "x < (2::real) ^ 53 / 2 ^ k"
      using assms(2) by (simp add: field_simps)
    also have "\<dots> = 2 powr (of_int (52 - int k) + 1)"
      by (simp add: powr_diff powr_add powr_realpow)
    finally show ?thesis .
  qed
  have e: "\<lfloor>log 2 \<bar>x\<bar>\<rfloor> = 52 - int k"
    using pos lo hi by (simp add: floor_log_eq_powr_iff)
  have q: "2 powr (of_int (\<lfloor>log 2 \<bar>x\<bar>\<rfloor> - 52)) = 1 / (2::real) ^ k"
    unfolding e by (simp add: powr_minus_divide powr_realpow)
  show ?thesis
    using pos assms(3) unfolding round_double_def q by (simp add: Let_def)
qed

lemma round_double_error: "\<bar>round_double x - x\<bar> \<le> \<bar>x\<bar> / 2 ^ 53"
proof (cases "x = 0")
  case True
  then show ?thesis by (simp add: round_double_def)
next
  case False
  define e where "e = \<lfloor>log 2 \<bar>x\<bar>\<rfloor>"
  define q :: real where "q = 2 powr (of_int (e - 52))"
  have qpos: "0 < q"
    by (simp add: q_def)
  have "2 powr (of_int e) \<le> 2 powr (log 2 \<bar>x\<bar>)"
    unfolding e_def by (intro powr_mono) simp_all
  then have e2: "2 powr (of_int e) \<le> \<bar>x\<bar>"
    using False by simp
  have qe: "q = 2 powr (of_int e) / 2 ^ 52"
    unfolding q_def by (simp add: powr_diff)
  have "round_double x - x = q * (of_int (round_half_even (x / q)) - x / q)"
    using False qpos by (simp add: round_double_def Let_def q_def e_def right_diff_distrib)
  then have "\<bar>round_double x - x\<bar> = q * \<bar>of_int (round_half_even (x / q)) - x / q\<bar>"
    using qpos by (simp add: abs_mult)
  also have "\<dots> \<le> q * (1 / 2)"
    using qpos round_half_even_error[of "x / q"] by (intro mult_left_mono) simp_all
  also have "\<dots> = 2 powr (of_int e) / 2 ^ 53"
    unfolding qe by simp
  also have "\<dots> \<le> \<bar>x\<bar> / 2 ^ 53"
    using e2 by (simp add: divide_right_mono)
  finally show ?thesis .
qed

lemma round_double_factor:
  "\<exists>d. 1 - 1 / 2 ^ 53 \<le> d \<and> d \<le> 1 + 1 / 2 ^ 53 \<and> round_double x = d * x"
proof (cases "x = 0")
  case True
  then show ?thesis
    by (intro exI[of _ 1]) (simp add: round_double_0)
next
  case False
  define u :: real where "u = 1 / 2 ^ 53"
  define d where "d = round_double x / x"
  have "\<bar>d - 1\<bar> = \<bar>round_double x - x\<bar> / \<bar>x\<bar>"
    unfolding d_def using False by (simp add: field_simps flip: abs_divide)
  also have "\<dots> \<le> (\<bar>x\<bar> / 2 ^ 53) / \<bar>x\<bar>"
    using round_double_error[of x] by (intro divide_right_mono) simp_all
  also have "\<dots> = u"
    using False by (simp add: u_def)
  finally have "\<bar>d - 1\<bar> \<le> u" .
  then have "1 - u \<le> d" "d \<le> 1 + u"
    by linarith+
  moreover have "round_double x = d * x"
    unfolding d_def using False by simp
  ultimately show ?thesis
    unfolding u_def by blast
qed

lemma near_refl: "near 0 x x"
  unfolding near_def by (intro exI[of _ 1]) simp

lemma near_round:
  assumes "near k x y"
  shows "near (k + 1) (round_double x) y"
proof -
  obtain \<rho> where r: "(1 - 1 / 2 ^ 53) ^ k \<le> \<rho>" "\<rho> \<le> (1 + 1 / 2 ^ 53) ^ k" "x = \<rho> * y"
    using assms unfolding near_def by blast
  obtain d where d: "1 - 1 / 2 ^ 53 \<le> d" "d \<le> 1 + 1 / 2 ^ 53" "round_double x = d * x"
    using round_double_factor by blast
  have "0 \<le> (1 - 1 / 2 ^ 53 :: real) ^ k"
    by simp
  with r(1) have rho: "0 \<le> \<rho>"
    by linarith
  have lo: "(1 - 1 / 2 ^ 53) ^ k * (1 - 1 / 2 ^ 53) \<le> \<rho> * d"
    using r(1) d(1) rho by (intro mult_mono) simp_all
  have dpos: "0 \<le> d"
    using d(1) by (rule order_trans[rotated]) simp
  have hi: "\<rho> * d \<le> (1 + 1 / 2 ^ 53) ^ k * (1 + 1 / 2 ^ 53)"
    using r(2) d(2) rho dpos by (intro mult_mono) simp_all
  have "round_double x = (\<rho> * d) * y"
    using d(3) r(3) by simp
  with lo hi show ?thesis
    unfolding near_def by (intro exI[of _ "\<rho> * d"]) simp
qed

lemma near_mult_right: "near k x y \<Longrightarrow> near k (x * s) (y * s)"
  unfolding near_def by (metis mult.assoc)

lemma near_mult_left: "near k x y \<Longrightarrow> near k (s * x) (s * y)"
  unfolding near_def by (metis mult.left_commute)

lemma near_div: "near k x y \<Longrightarrow> near k (x / s) (y / s)"
  unfolding near_def by (metis times_divide_eq_right)

lemma near_close:
  assumes "near 14 x e" and "near 14 x' e"
  shows "\<bar>x' - x\<bar> \<le> \<bar>x\<bar> / 10 ^ 9"
proof -
  define lo :: real where "lo = (1 - 1 / 2 ^ 53) ^ 14"
  define hi :: real where "hi = (1 + 1 / 2 ^ 53) ^ 14"
  obtain \<rho> \<rho>' where r: "lo \<le> \<rho>" "\<rho> \<le> hi" "x = \<rho> * e"
    and r': "lo \<le> \<rho>'" "\<rho>' \<le> hi" "x' = \<rho>' * e"
    using assms unfolding near_def lo_def hi_def by blast
  have num: "0 < lo" "hi - lo \<le> lo / 10 ^ 9"
    unfolding lo_def hi_def by (simp_all add: power_divide)
  have "\<bar>x' - x\<bar> = \<bar>\<rho>' - \<rho>\<bar> * \<bar>e\<bar>"
    unfolding r(3) r'(3) by (simp add: abs_mult flip: left_diff_distrib)
  also have "\<dots> \<le> (hi - lo) * \<bar>e\<bar>"
    using r r' by (intro mult_right_mono) (simp_all add: abs_le_iff)
  also have "\<dots> \<le> (lo / 10 ^ 9) * \<bar>e\<bar>"
    using num(2) by (intro mult_right_mono) simp_all
  also have "\<dots> \<le> (\<rho> / 10 ^ 9) * \<bar>e\<bar>"
    using r(1) by (intro mult_right_mono) simp_all
  also have "\<dots> = \<bar>x\<bar> / 10 ^ 9"
    using r(1) num(1) unfolding r(3) by (simp add: abs_mult)
  finally show ?thesis .
qed

subsection \<open>The electron count in doubles and the pixel counts\<close>

lemma conversion_pixel_counts:
  "unit_conversion_double (literals (p\<lparr>n_x := a, n_y := b\<rparr>))
     = (unit_conversion_double (literals p))\<lparr>n_x := a, n_y := b\<rparr>"
  "n_x (unit_conversion_double (literals p)) = n_x p"
  "n_y (unit_conversion_double (literals p)) = n_y p"
  by (simp_all add: unit_conversion_double_def literals_def Let_def)

lemma cancel_pixel_counts:
  fixes lam d2 qq bw l x1 x2 x3 x4 ch e tt :: real
  assumes "nx \<noteq> 0" and "ny \<noteq> 0"
  shows "lam * (d2 * of_int nx * of_int ny * qq * bw * l * x1 * x2 * x3 * x4) / ch
           / of_int (nx * ny) * e * tt
         = lam * (d2 * qq * bw * l * x1 * x2 * x3 * x4) / ch * e * tt"
  using assms by simp

lemma chain_near:
  "near 14 (round_double (round_double (phi_double q * eta q) * t q))
           (lambda_c q
              * (round_double ((D q) ^ 2) * of_int (n_x q) * of_int (n_y q)
                   * round_double (round_double (A_ap_double q - A_obs_double q)
                                     / round_double ((f q) ^ 2))
                   * BW q * L_typ q * round_double (1 - L_abs q) * round_double (1 - L_scat q)
                   * round_double (1 - L_opt q) * round_double (1 - L_crop q))
              / round_double (c * round_double h) / of_int (n_x q * n_y q) * eta q * t q)"
proof -
  let ?Q = "round_double (round_double (A_ap_double q - A_obs_double q) / round_double ((f q) ^ 2))"
  have k: "(0::nat) + 1 + 1 + 1 + 1 + 1 + 1 + 1 + 1 + 1 + 1 + 1 + 1 + 1 + 1 = 14"
    by simp
  note s0 = near_refl[of "round_double ((D q) ^ 2)"]
  note s1 = near_round[OF near_mult_right[OF s0, where s = "of_int (n_x q)"]]
  note s2 = near_round[OF near_mult_right[OF s1, where s = "of_int (n_y q)"]]
  note s3 = near_round[OF near_mult_right[OF s2, where s = ?Q]]
  note s4 = near_round[OF near_mult_right[OF s3, where s = "BW q"]]
  note s5 = near_round[OF near_mult_right[OF s4, where s = "L_typ q"]]
  note s6 = near_round[OF near_mult_right[OF s5, where s = "round_double (1 - L_abs q)"]]
  note s7 = near_round[OF near_mult_right[OF s6, where s = "round_double (1 - L_scat q)"]]
  note s8 = near_round[OF near_mult_right[OF s7, where s = "round_double (1 - L_opt q)"]]
  note s9 = near_round[OF near_mult_right[OF s8, where s = "round_double (1 - L_crop q)"]]
  note s10 = near_round[OF near_mult_left[OF s9, where s = "lambda_c q"]]
  note s11 = near_round[OF near_div[OF s10, where s = "round_double (c * round_double h)"]]
  note s12 = near_round[OF near_div[OF s11, where s = "of_int (n_x q * n_y q)"]]
  note s13 = near_round[OF near_mult_right[OF s12, where s = "eta q"]]
  note s14 = near_round[OF near_mult_right[OF s13, where s = "t q"]]
  show ?thesis
    unfolding phi_double_def phi_det_double_def P_double_def A_det_double_def
    by (rule s14[unfolded k])
qed

lemma n_ev_double_near:
  "near 14 (n_ev_double p)
     (lambda_c (unit_conversion_double (literals p))
        * (round_double ((D (unit_conversion_double (literals p))) ^ 2)
             * of_int (n_x p) * of_int (n_y p)
             * round_double (round_double (A_ap_double (unit_conversion_double (literals p))
                                             - A_obs_double (unit_conversion_double (literals p)))
                               / round_double ((f (unit_conversion_double (literals p))) ^ 2))
             * BW (unit_conversion_double (literals p)) * L_typ (unit_conversion_double (literals p))
             * round_double (1 - L_abs (unit_conversion_double (literals p)))
             * round_double (1 - L_scat (unit_conversion_double (literals p)))
             * round_double (1 - L_opt (unit_conversion_double (literals p)))
             * round_double (1 - L_crop (unit_conversion_double (literals p))))
        / round_double (c * round_double h) / of_int (n_x p * n_y p)
        * eta (unit_conversion_double (literals p)) * t (unit_conversion_double (literals p)))"
  using chain_near[of "unit_conversion_double (literals p)"]
  by (simp only: n_ev_double_def Let_def conversion_pixel_counts(2,3))

lemma shared_pixel_counts:
  "lambda_c (q\<lparr>n_x := a, n_y := b\<rparr>) = lambda_c q" "D (q\<lparr>n_x := a, n_y := b\<rparr>) = D q"
  "f (q\<lparr>n_x := a, n_y := b\<rparr>) = f q" "BW (q\<lparr>n_x := a, n_y := b\<rparr>) = BW q"
  "L_typ (q\<lparr>n_x := a, n_y := b\<rparr>) = L_typ q" "eta (q\<lparr>n_x := a, n_y := b\<rparr>) = eta q"
  "t (q\<lparr>n_x := a, n_y := b\<rparr>) = t q" "L_abs (q\<lparr>n_x := a, n_y := b\<rparr>) = L_abs q"
  "L_scat (q\<lparr>n_x := a, n_y := b\<rparr>) = L_scat q" "L_opt (q\<lparr>n_x := a, n_y := b\<rparr>) = L_opt q"
  "L_crop (q\<lparr>n_x := a, n_y := b\<rparr>) = L_crop q"
  "A_ap_double (q\<lparr>n_x := a, n_y := b\<rparr>) = A_ap_double q"
  "A_obs_double (q\<lparr>n_x := a, n_y := b\<rparr>) = A_obs_double q"
  "n_x (p\<lparr>n_x := a, n_y := b\<rparr>) = a" "n_y (p\<lparr>n_x := a, n_y := b\<rparr>) = b"
  by (simp_all add: A_ap_double_def A_obs_double_def)

lemma n_ev_double_pixel_counts:
  assumes "n_x p \<noteq> 0" and "n_y p \<noteq> 0" and "a \<noteq> 0" and "b \<noteq> 0"
  shows "\<bar>n_ev_double (p\<lparr>n_x := a, n_y := b\<rparr>) - n_ev_double p\<bar> \<le> \<bar>n_ev_double p\<bar> / 10 ^ 9"
proof -
  note n = n_ev_double_near[of p, unfolded cancel_pixel_counts[OF assms(1,2)]]
  note n' = n_ev_double_near[of "p\<lparr>n_x := a, n_y := b\<rparr>",
      unfolded conversion_pixel_counts(1) shared_pixel_counts cancel_pixel_counts[OF assms(3,4)]]
  show ?thesis
    using n n' by (rule near_close)
qed

subsection \<open>The rounded electron count at the parameter cell\<close>

text \<open>Each rounding met when the notebook computes \<^verbatim>\<open>n_ev\<close> on the parameter cell, with the pixel counts
  as written and with pixel counts 1 and 5.\<close>

lemma rounding_1: "round_double (400) = 400"
  by (rule round_double_eval[where k = 44]) (simp_all add: round_half_even_def Let_def power_divide)

lemma rounding_2: "round_double (625) = 625"
  by (rule round_double_eval[where k = 43]) (simp_all add: round_half_even_def Let_def power_divide)

lemma rounding_3: "round_double (114 / 10) = 6417629469002957 / 2 ^ 49"
  by (rule round_double_eval[where k = 49]) (simp_all add: round_half_even_def Let_def power_divide)

lemma rounding_4: "round_double (0) = 0"
  by (simp add: round_double_0)

lemma rounding_5: "round_double (6) = 6"
  by (rule round_double_eval[where k = 50]) (simp_all add: round_half_even_def Let_def power_divide)

lemma rounding_6: "round_double (16) = 16"
  by (rule round_double_eval[where k = 48]) (simp_all add: round_half_even_def Let_def power_divide)

lemma rounding_7: "round_double (300) = 300"
  by (rule round_double_eval[where k = 44]) (simp_all add: round_half_even_def Let_def power_divide)

lemma rounding_8: "round_double (2045 / 100) = 5756163273732915 / 2 ^ 48"
  by (rule round_double_eval[where k = 48]) (simp_all add: round_half_even_def Let_def power_divide)

lemma rounding_9: "round_double (35 / 100) = 3152519739159347 / 2 ^ 53"
  by (rule round_double_eval[where k = 54]) (simp_all add: round_half_even_def Let_def power_divide)

lemma rounding_10: "round_double (13 / 100000) = 4796153459164483 / 2 ^ 65"
  by (rule round_double_eval[where k = 65]) (simp_all add: round_half_even_def Let_def power_divide)

lemma rounding_11: "round_double (12000) = 12000"
  by (rule round_double_eval[where k = 39]) (simp_all add: round_half_even_def Let_def power_divide)

lemma rounding_12: "round_double (55) = 55"
  by (rule round_double_eval[where k = 47]) (simp_all add: round_half_even_def Let_def power_divide)

lemma rounding_13: "round_double (11 / 100) = 7926335344172073 / 2 ^ 56"
  by (rule round_double_eval[where k = 56]) (simp_all add: round_half_even_def Let_def power_divide)

lemma rounding_14: "round_double (58 / 1000) = 8358680908399641 / 2 ^ 57"
  by (rule round_double_eval[where k = 57]) (simp_all add: round_half_even_def Let_def power_divide)

lemma rounding_15: "round_double (2 / 10) = 3602879701896397 / 2 ^ 54"
  by (rule round_double_eval[where k = 55]) (simp_all add: round_half_even_def Let_def power_divide)

lemma rounding_16: "round_double (6 / 10) = 5404319552844595 / 2 ^ 53"
  by (rule round_double_eval[where k = 53]) (simp_all add: round_half_even_def Let_def power_divide)

lemma rounding_17: "round_double (10 ^ 3) = 1000"
  by (rule round_double_eval[where k = 43]) (simp_all add: round_half_even_def Let_def power_divide)

lemma rounding_18: "round_double (1 / 10 ^ 9) = 4835703278458517 / 2 ^ 82"
  by (rule round_double_eval[where k = 82]) (simp_all add: round_half_even_def Let_def power_divide)

lemma rounding_19: "round_double (1 / 10 ^ 3) = 1152921504606847 / 2 ^ 60"
  by (rule round_double_eval[where k = 62]) (simp_all add: round_half_even_def Let_def power_divide)

lemma rounding_20: "round_double (1 / 10 ^ 6) = 4722366482869645 / 2 ^ 72"
  by (rule round_double_eval[where k = 72]) (simp_all add: round_half_even_def Let_def power_divide)

lemma rounding_21: "round_double (10 ^ 6) = 1000000"
  by (rule round_double_eval[where k = 33]) (simp_all add: round_half_even_def Let_def power_divide)

lemma rounding_22: "round_double (400 * 1000) = 400000"
  by (rule round_double_eval[where k = 34]) (simp_all add: round_half_even_def Let_def power_divide)

lemma rounding_23: "round_double (625 * (4835703278458517 / 2 ^ 82)) = 5902958103587057 / 2 ^ 73"
  by (rule round_double_eval[where k = 73]) (simp_all add: round_half_even_def Let_def power_divide)

lemma rounding_24: "round_double ((6417629469002957 / 2 ^ 49) * (1152921504606847 / 2 ^ 60)) = 1642913144064757 / 2 ^ 57"
  by (rule round_double_eval[where k = 59]) (simp_all add: round_half_even_def Let_def power_divide)

lemma rounding_25: "round_double (0 * (1152921504606847 / 2 ^ 60)) = 0"
  by (simp add: round_double_0)

lemma rounding_26: "round_double (6 * (4722366482869645 / 2 ^ 72)) = 1770887431076117 / 2 ^ 68"
  by (rule round_double_eval[where k = 70]) (simp_all add: round_half_even_def Let_def power_divide)

lemma rounding_27: "round_double (16 * (1152921504606847 / 2 ^ 60)) = 1152921504606847 / 2 ^ 56"
  by (rule round_double_eval[where k = 58]) (simp_all add: round_half_even_def Let_def power_divide)

lemma rounding_28: "round_double (300 * (4835703278458517 / 2 ^ 82)) = 5666839779443575 / 2 ^ 74"
  by (rule round_double_eval[where k = 74]) (simp_all add: round_half_even_def Let_def power_divide)

lemma rounding_29: "round_double ((5756163273732915 / 2 ^ 48) * 1000000) = 20450000"
  by (rule round_double_eval[where k = 28]) (simp_all add: round_half_even_def Let_def power_divide)

lemma rounding_30: "round_double ((1642913144064757 / 2 ^ 57) ^ 2) = 4794677719638587 / 2 ^ 65"
  by (rule round_double_eval[where k = 65]) (simp_all add: round_half_even_def Let_def power_divide)

lemma rounding_31: "round_double ((884279719003555 / 2 ^ 48) * (4794677719638587 / 2 ^ 65)) = 7531462150173623 / 2 ^ 64"
  by (rule round_double_eval[where k = 64]) (simp_all add: round_half_even_def Let_def power_divide)

lemma rounding_32: "round_double ((7531462150173623 / 2 ^ 64) / 4) = 7531462150173623 / 2 ^ 66"
  by (rule round_double_eval[where k = 66]) (simp_all add: round_half_even_def Let_def power_divide)

lemma rounding_33: "round_double (0 ^ 2) = 0"
  by (simp add: round_double_0)

lemma rounding_34: "round_double ((884279719003555 / 2 ^ 48) * 0) = 0"
  by (simp add: round_double_0)

lemma rounding_35: "round_double (0 / 4) = 0"
  by (simp add: round_double_0)

lemma rounding_36: "round_double ((1770887431076117 / 2 ^ 68) ^ 2) = 1392682544196053 / 2 ^ 85"
  by (rule round_double_eval[where k = 87]) (simp_all add: round_half_even_def Let_def power_divide)

lemma rounding_37: "round_double ((1392682544196053 / 2 ^ 85) * (real_of_int 2200)) = 5984182807092415 / 2 ^ 76"
  by (rule round_double_eval[where k = 76]) (simp_all add: round_half_even_def Let_def power_divide)

lemma rounding_38: "round_double ((5984182807092415 / 2 ^ 76) * (real_of_int 3208)) = 1171707668771513 / 2 ^ 62"
  by (rule round_double_eval[where k = 64]) (simp_all add: round_half_even_def Let_def power_divide)

lemma rounding_39: "round_double ((7531462150173623 / 2 ^ 66) - 0) = 7531462150173623 / 2 ^ 66"
  by (rule round_double_eval[where k = 66]) (simp_all add: round_half_even_def Let_def power_divide)

lemma rounding_40: "round_double ((1152921504606847 / 2 ^ 56) ^ 2) = 4722366482869645 / 2 ^ 64"
  by (rule round_double_eval[where k = 64]) (simp_all add: round_half_even_def Let_def power_divide)

lemma rounding_41: "round_double ((7531462150173623 / 2 ^ 66) / (4722366482869645 / 2 ^ 64)) = 897820252200797 / 2 ^ 51"
  by (rule round_double_eval[where k = 54]) (simp_all add: round_half_even_def Let_def power_divide)

lemma rounding_42: "round_double ((1171707668771513 / 2 ^ 62) * (897820252200797 / 2 ^ 51)) = 116793560898337 / 2 ^ 60"
  by (rule round_double_eval[where k = 66]) (simp_all add: round_half_even_def Let_def power_divide)

lemma rounding_43: "round_double ((116793560898337 / 2 ^ 60) * (5666839779443575 / 2 ^ 74)) = 2351364958320665 / 2 ^ 86"
  by (rule round_double_eval[where k = 87]) (simp_all add: round_half_even_def Let_def power_divide)

lemma rounding_44: "round_double ((2351364958320665 / 2 ^ 86) * 20450000) = 5732227968890381 / 2 ^ 63"
  by (rule round_double_eval[where k = 63]) (simp_all add: round_half_even_def Let_def power_divide)

lemma rounding_45: "round_double (1 - (7926335344172073 / 2 ^ 56)) = 8016407336719483 / 2 ^ 53"
  by (rule round_double_eval[where k = 53]) (simp_all add: round_half_even_def Let_def power_divide)

lemma rounding_46: "round_double ((5732227968890381 / 2 ^ 63) * (8016407336719483 / 2 ^ 53)) = 5101682892312439 / 2 ^ 63"
  by (rule round_double_eval[where k = 63]) (simp_all add: round_half_even_def Let_def power_divide)

lemma rounding_47: "round_double (1 - (8358680908399641 / 2 ^ 57)) = 4242390848983007 / 2 ^ 52"
  by (rule round_double_eval[where k = 53]) (simp_all add: round_half_even_def Let_def power_divide)

lemma rounding_48: "round_double ((5101682892312439 / 2 ^ 63) * (4242390848983007 / 2 ^ 52)) = 4805785284558317 / 2 ^ 63"
  by (rule round_double_eval[where k = 63]) (simp_all add: round_half_even_def Let_def power_divide)

lemma rounding_49: "round_double (1 - (3602879701896397 / 2 ^ 54)) = 3602879701896397 / 2 ^ 52"
  by (rule round_double_eval[where k = 53]) (simp_all add: round_half_even_def Let_def power_divide)

lemma rounding_50: "round_double ((4805785284558317 / 2 ^ 63) * (3602879701896397 / 2 ^ 52)) = 1922314113823327 / 2 ^ 62"
  by (rule round_double_eval[where k = 64]) (simp_all add: round_half_even_def Let_def power_divide)

lemma rounding_51: "round_double (1 - (5404319552844595 / 2 ^ 53)) = 3602879701896397 / 2 ^ 53"
  by (rule round_double_eval[where k = 54]) (simp_all add: round_half_even_def Let_def power_divide)

lemma rounding_52: "round_double ((1922314113823327 / 2 ^ 62) * (3602879701896397 / 2 ^ 53)) = 6151405164234647 / 2 ^ 65"
  by (rule round_double_eval[where k = 65]) (simp_all add: round_half_even_def Let_def power_divide)

lemma rounding_53: "round_double (662607015 / 10 ^ 42) = 7747209898635537 / 2 ^ 163"
  by (rule round_double_eval[where k = 163]) (simp_all add: round_half_even_def Let_def power_divide)

lemma rounding_54: "round_double (299792458 * (7747209898635537 / 2 ^ 163)) = 4326095987397951 / 2 ^ 134"
  by (rule round_double_eval[where k = 135]) (simp_all add: round_half_even_def Let_def power_divide)

lemma rounding_55: "round_double ((5902958103587057 / 2 ^ 73) * (6151405164234647 / 2 ^ 65)) = 8062769776865637 / 2 ^ 86"
  by (rule round_double_eval[where k = 86]) (simp_all add: round_half_even_def Let_def power_divide)

lemma rounding_56: "round_double ((8062769776865637 / 2 ^ 86) / (4326095987397951 / 2 ^ 134)) = 524599533107371"
  by (rule round_double_eval[where k = 4]) (simp_all add: round_half_even_def Let_def power_divide)

lemma rounding_57: "round_double (524599533107371 / (real_of_int (2200 * 3208))) = 4988279120631101 / 2 ^ 26"
  by (rule round_double_eval[where k = 26]) (simp_all add: round_half_even_def Let_def power_divide)

lemma rounding_58: "round_double ((4988279120631101 / 2 ^ 26) * (3152519739159347 / 2 ^ 53)) = 6983590768883541 / 2 ^ 28"
  by (rule round_double_eval[where k = 28]) (simp_all add: round_half_even_def Let_def power_divide)

lemma rounding_59: "round_double ((6983590768883541 / 2 ^ 28) * (4796153459164483 / 2 ^ 65)) = 7437244825230215 / 2 ^ 41"
  by (rule round_double_eval[where k = 41]) (simp_all add: round_half_even_def Let_def power_divide)

lemma rounding_60: "round_double ((1392682544196053 / 2 ^ 85) * (real_of_int 1)) = 1392682544196053 / 2 ^ 85"
  by (rule round_double_eval[where k = 87]) (simp_all add: round_half_even_def Let_def power_divide)

lemma rounding_61: "round_double ((1392682544196053 / 2 ^ 85) * (real_of_int 5)) = 6963412720980265 / 2 ^ 85"
  by (rule round_double_eval[where k = 85]) (simp_all add: round_half_even_def Let_def power_divide)

lemma rounding_62: "round_double ((6963412720980265 / 2 ^ 85) * (897820252200797 / 2 ^ 51)) = 2776398207040005 / 2 ^ 85"
  by (rule round_double_eval[where k = 86]) (simp_all add: round_half_even_def Let_def power_divide)

lemma rounding_63: "round_double ((2776398207040005 / 2 ^ 85) * (5666839779443575 / 2 ^ 74)) = 3493517431614217 / 2 ^ 107"
  by (rule round_double_eval[where k = 108]) (simp_all add: round_half_even_def Let_def power_divide)

lemma rounding_64: "round_double ((3493517431614217 / 2 ^ 107) * 20450000) = 8516601500095217 / 2 ^ 84"
  by (rule round_double_eval[where k = 84]) (simp_all add: round_half_even_def Let_def power_divide)

lemma rounding_65: "round_double ((8516601500095217 / 2 ^ 84) * (8016407336719483 / 2 ^ 53)) = 7579775335084743 / 2 ^ 84"
  by (rule round_double_eval[where k = 84]) (simp_all add: round_half_even_def Let_def power_divide)

lemma rounding_66: "round_double ((7579775335084743 / 2 ^ 84) * (4242390848983007 / 2 ^ 52)) = 1785037091412457 / 2 ^ 82"
  by (rule round_double_eval[where k = 84]) (simp_all add: round_half_even_def Let_def power_divide)

lemma rounding_67: "round_double ((1785037091412457 / 2 ^ 82) * (3602879701896397 / 2 ^ 52)) = 5712118692519863 / 2 ^ 84"
  by (rule round_double_eval[where k = 84]) (simp_all add: round_half_even_def Let_def power_divide)

lemma rounding_68: "round_double ((5712118692519863 / 2 ^ 84) * (3602879701896397 / 2 ^ 53)) = 4569694954015891 / 2 ^ 85"
  by (rule round_double_eval[where k = 85]) (simp_all add: round_half_even_def Let_def power_divide)

lemma rounding_69: "round_double ((5902958103587057 / 2 ^ 73) * (4569694954015891 / 2 ^ 85)) = 5989590570127709 / 2 ^ 106"
  by (rule round_double_eval[where k = 106]) (simp_all add: round_half_even_def Let_def power_divide)

lemma rounding_70: "round_double ((5989590570127709 / 2 ^ 106) / (4326095987397951 / 2 ^ 134)) = 6235348900788877 / 2 ^ 24"
  by (rule round_double_eval[where k = 24]) (simp_all add: round_half_even_def Let_def power_divide)

lemma rounding_71: "round_double ((6235348900788877 / 2 ^ 24) / (real_of_int (1 * 5))) = 2494139560315551 / 2 ^ 25"
  by (rule round_double_eval[where k = 26]) (simp_all add: round_half_even_def Let_def power_divide)

lemma rounding_72: "round_double ((2494139560315551 / 2 ^ 25) * (3152519739159347 / 2 ^ 53)) = 3491795384441771 / 2 ^ 27"
  by (rule round_double_eval[where k = 28]) (simp_all add: round_half_even_def Let_def power_divide)

lemma rounding_73: "round_double ((3491795384441771 / 2 ^ 27) * (4796153459164483 / 2 ^ 65)) = 929655603153777 / 2 ^ 38"
  by (rule round_double_eval[where k = 41]) (simp_all add: round_half_even_def Let_def power_divide)

lemmas roundings =
  rounding_1 rounding_2 rounding_3 rounding_4 rounding_5 rounding_6 rounding_7 rounding_8
  rounding_9 rounding_10 rounding_11 rounding_12 rounding_13 rounding_14 rounding_15 rounding_16
  rounding_17 rounding_18 rounding_19 rounding_20 rounding_21 rounding_22 rounding_23 rounding_24
  rounding_25 rounding_26 rounding_27 rounding_28 rounding_29 rounding_30 rounding_31 rounding_32
  rounding_33 rounding_34 rounding_35 rounding_36 rounding_37 rounding_38 rounding_39 rounding_40
  rounding_41 rounding_42 rounding_43 rounding_44 rounding_45 rounding_46 rounding_47 rounding_48
  rounding_49 rounding_50 rounding_51 rounding_52 rounding_53 rounding_54 rounding_55 rounding_56
  rounding_57 rounding_58 rounding_59 rounding_60 rounding_61 rounding_62 rounding_63 rounding_64
  rounding_65 rounding_66 rounding_67 rounding_68 rounding_69 rounding_70 rounding_71 rounding_72
  rounding_73

lemma n_ev_double_default: "n_ev_double default_parameters = 7437244825230215 / 2 ^ 41"
  by (simp only: n_ev_double_def phi_double_def phi_det_double_def P_double_def A_det_double_def
      A_ap_double_def A_obs_double_def unit_conversion_double_def literals_def default_parameters_def
      Let_def pi_double_def c_def h_def parameters.simps roundings)

lemma n_ev_double_1_5: "n_ev_double (default_parameters\<lparr>n_x := 1, n_y := 5\<rparr>) = 929655603153777 / 2 ^ 38"
  by (simp only: n_ev_double_def phi_double_def phi_det_double_def P_double_def A_det_double_def
      A_ap_double_def A_obs_double_def unit_conversion_double_def literals_def default_parameters_def
      Let_def pi_double_def c_def h_def parameters.simps roundings)

subsection \<open>Independence of the pixel counts\<close>

text \<open>
  Against C10 as stated: in doubles the factor \<open>n_x * n_y\<close> does not cancel exactly. On the
  parameter cell as written \<^verbatim>\<open>n_ev\<close> is \<open>7437244825230215 / 2\<^sup>4\<^sup>1\<close>, which prints as
  3382.067382167504; with pixel counts 1 and 5 and everything else unchanged it is
  \<open>929655603153777 / 2\<^sup>3\<^sup>8\<close>, one unit in the last place more.
\<close>

theorem pixel_count_counterexample:
  "0 < n_x default_parameters \<and> 0 < n_y default_parameters
   \<and> n_ev_double default_parameters = 7437244825230215 / 2 ^ 41
   \<and> n_ev_double (default_parameters\<lparr>n_x := 1, n_y := 5\<rparr>) = 929655603153777 / 2 ^ 38
   \<and> n_ev_double (default_parameters\<lparr>n_x := 1, n_y := 5\<rparr>) \<noteq> n_ev_double default_parameters"
proof -
  have "(929655603153777 / 2 ^ 38 :: real) \<noteq> 7437244825230215 / 2 ^ 41"
    by simp
  then show ?thesis
    unfolding n_ev_double_default n_ev_double_1_5 by (simp add: default_parameters_def)
qed

text \<open>
  C10, amended: for valid parameters in range and with a margin, and pixel counts between 1
  and \<open>10\<^sup>6\<close>, the electron count in doubles is independent of the pixel counts up to rounding:
  two runs that differ only in their pixel counts have electron counts that differ by at most
  a relative \<open>10\<^sup>-\<^sup>9\<close>. The pixel counts enter the saturation fraction, the noise terms and the
  SNR through \<open>n_ev\<close> only: two such runs with the same \<open>n_ev\<close> have the same saturation
  fraction, the same noise terms and the same SNR.
\<close>

theorem pixel_counts_up_to_rounding:
  assumes "valid p" and "in_range p" and "margin p"
    and "1 \<le> a" and "a \<le> 10 ^ 6" and "1 \<le> b" and "b \<le> 10 ^ 6"
  shows "\<bar>n_ev_double (p\<lparr>n_x := a, n_y := b\<rparr>) - n_ev_double p\<bar> \<le> \<bar>n_ev_double p\<bar> / 10 ^ 9
       \<and> (\<forall>r r'. notebook p = Inr r \<and> notebook (p\<lparr>n_x := a, n_y := b\<rparr>) = Inr r'
                   \<and> n_ev (sig r') = n_ev (sig r)
              \<longrightarrow> saturation (sig r') = saturation (sig r) \<and> noi r' = noi r \<and> snr r' = snr r)"
proof -
  have "n_x p \<noteq> 0" "n_y p \<noteq> 0" "a \<noteq> 0" "b \<noteq> 0"
    using assms by (auto simp: valid_def)
  then have first: "\<bar>n_ev_double (p\<lparr>n_x := a, n_y := b\<rparr>) - n_ev_double p\<bar> \<le> \<bar>n_ev_double p\<bar> / 10 ^ 9"
    by (rule n_ev_double_pixel_counts)
  have second: "saturation (sig r') = saturation (sig r) \<and> noi r' = noi r \<and> snr r' = snr r"
    if r: "notebook p = Inr r" and r': "notebook (p\<lparr>n_x := a, n_y := b\<rparr>) = Inr r'"
      and nev: "n_ev (sig r') = n_ev (sig r)" for r r'
  proof -
    note cells = notebook_cells[OF r] and cells' = notebook_cells[OF r']
    have sat: "saturation (sig r') = saturation (sig r)"
      unfolding signal_cell_Inr(8)[OF cells(3)] signal_cell_Inr(8)[OF cells'(3)] nev
      by (simp add: cells(1) cells'(1) unit_conversion_simps)
    have noi: "noi r' = noi r"
      using noise_cell_Inr[OF cells(4)] noise_cell_Inr[OF cells'(4)] nev
      by (simp add: cells(1) cells'(1) unit_conversion_simps noise.equality)
    have "snr r' = snr r"
      unfolding snr_cell_Inr[OF cells(5)] snr_cell_Inr[OF cells'(5)] noi nev ..
    with sat noi show ?thesis by blast
  qed
  from first second show ?thesis by blast
qed

theorem pixel_counts_up_to_rounding_witness:
  "valid default_parameters \<and> in_range default_parameters \<and> margin default_parameters
   \<and> (1::int) \<le> 5 \<and> (5::int) \<le> 10 ^ 6
   \<and> \<bar>n_ev_double (default_parameters\<lparr>n_x := 1, n_y := 5\<rparr>) - n_ev_double default_parameters\<bar>
        \<le> \<bar>n_ev_double default_parameters\<bar> / 10 ^ 9"
proof -
  have v: "valid default_parameters"
    by (simp add: valid_def default_parameters_def)
  show ?thesis
    using pixel_counts_up_to_rounding[OF v default_in_range default_margin, of 1 5]
      v default_in_range default_margin
    by simp
qed

end
